theory Spec2Isabelle
  imports Complex_Main "HOL-Library.Word"
begin

section \<open>Machine types\<close>

text \<open>
  The C types of \<^verbatim>\<open>gtkshadow.c\<close>: \<^verbatim>\<open>gint16\<close> is a 16-bit two's complement integer,
  \<^verbatim>\<open>guint\<close> a 32-bit unsigned one.  A \<^verbatim>\<open>gdouble\<close> is modelled by the rational number it
  denotes (every finite double is one); the only operations the file performs on doubles
  are the conversions from and to \<^verbatim>\<open>gint16\<close>.  Pointers are addresses, \<open>None\<close> is
  \<^verbatim>\<open>NULL\<close>.
\<close>

type_synonym gint16 = "16 word"
type_synonym guint = "32 word"
type_synonym gdouble = rat
type_synonym addr = nat

text \<open>What C leaves undefined is a value of the model, not an unspecified HOL term.\<close>

datatype fault = Null_dereference | Invalid_pointer | Undefined_conversion

text \<open>
  The implicit conversion \<^verbatim>\<open>retval->hoffset = hoffset\<close> from \<^verbatim>\<open>gdouble\<close> to \<^verbatim>\<open>gint16\<close>
  discards the fractional part (truncation toward zero); the behaviour is undefined when
  the integral part is not representable in the integer type.
\<close>

definition trunc_toward_zero :: "rat \<Rightarrow> int" where
  "trunc_toward_zero x = (if x < 0 then - \<lfloor>- x\<rfloor> else \<lfloor>x\<rfloor>)"

definition gdouble_to_gint16 :: "gdouble \<Rightarrow> fault + gint16" where
  "gdouble_to_gint16 x =
     (let t = trunc_toward_zero x
      in if - 32768 \<le> t \<and> t \<le> 32767 then Inr (word_of_int t) else Inl Undefined_conversion)"

text \<open>The conversion of a \<^verbatim>\<open>gint16\<close> argument to a \<^verbatim>\<open>gdouble\<close> parameter is exact.\<close>

definition gint16_to_gdouble :: "gint16 \<Rightarrow> gdouble" where
  "gint16_to_gdouble x = of_int (sint x)"

section \<open>Formatted output\<close>

text \<open>The \<^verbatim>\<open>%d\<close> conversion of \<^verbatim>\<open>g_string_append_printf\<close>: signed decimal, no padding.\<close>

definition digit_char :: "nat \<Rightarrow> char" where
  "digit_char d = ''0123456789'' ! d"

fun decimal :: "nat \<Rightarrow> string" where
  "decimal n = (if n < 10 then [digit_char n] else decimal (n div 10) @ [digit_char (n mod 10)])"

declare decimal.simps [simp del]

definition printf_d :: "int \<Rightarrow> string" where
  "printf_d i = (if i < 0 then CHR ''-'' # decimal (nat (- i)) else decimal (nat i))"

section \<open>Shadow elements\<close>

text \<open>
  The declaration of \<^verbatim>\<open>GdkRGBA\<close> is not among the sources; a colour is taken as its four
  channels.
\<close>

record GdkRGBA =
  red :: gdouble
  green :: gdouble
  blue :: gdouble
  alpha :: gdouble

text \<open>The colour of a zero-filled element (\<^verbatim>\<open>g_slice_new0\<close>).\<close>

definition rgba_zero :: GdkRGBA where
  "rgba_zero = \<lparr>red = 0, green = 0, blue = 0, alpha = 0\<rparr>"

record GtkShadowElement =
  hoffset :: gint16
  voffset :: gint16
  radius :: gint16
  spread :: gint16
  inset :: bool
  color :: GdkRGBA
  symbolic_color :: "addr option"

text \<open>
  \<^verbatim>\<open>shadow_element_to_string\<close>.  The two colour printers
  \<^verbatim>\<open>gtk_symbolic_color_to_string\<close> and \<^verbatim>\<open>gdk_rgba_to_string\<close> live outside the file and
  are parameters.  The \<^verbatim>\<open>GString\<close> is threaded through the appends as the code does.
\<close>

definition shadow_element_to_string ::
  "(addr \<Rightarrow> string) \<Rightarrow> (GdkRGBA \<Rightarrow> string) \<Rightarrow> GtkShadowElement \<Rightarrow> string" where
  "shadow_element_to_string gtk_symbolic_color_to_string gdk_rgba_to_string element =
     (let str = [];
          str = (if inset element then str @ ''inset '' else str);
          str = str @ printf_d (sint (hoffset element)) @ '' ''
                    @ printf_d (sint (voffset element)) @ '' '';
          str = (if radius element \<noteq> 0 then str @ printf_d (sint (radius element)) @ '' ''
                 else str);
          str = (if spread element \<noteq> 0 then str @ printf_d (sint (spread element)) @ '' ''
                 else str);
          color_str = (case symbolic_color element of
                         Some sc \<Rightarrow> gtk_symbolic_color_to_string sc
                       | None \<Rightarrow> gdk_rgba_to_string (color element))
      in str @ color_str)"

section \<open>The store\<close>

record GtkShadow =
  elements :: "GtkShadowElement list"
  ref_count :: guint
  resolved :: bool

text \<open>
  \<^verbatim>\<open>GtkShadow\<close> objects are shared through pointers and reference counted, so they live
  in a store.  The elements of a list are owned by that list alone and never change after
  their construction: the \<^verbatim>\<open>GList\<close> of element pointers is the list of the elements, and
  \<open>live_elements\<close> counts the element blocks allocated and not yet freed.
  \<open>next_addr\<close> is the allocator's break: \<^verbatim>\<open>g_slice_new0\<close> hands out that address.
  \<open>sym_refs\<close> holds the reference counts of the symbolic colours, \<open>resolve_log\<close> the
  arguments of the calls of \<^verbatim>\<open>gtk_symbolic_color_resolve\<close> so far, \<open>criticals\<close> the number
  of critical warnings logged by \<^verbatim>\<open>g_return_if_fail\<close>.
\<close>

record world =
  shadows :: "addr \<rightharpoonup> GtkShadow"
  next_addr :: addr
  live_elements :: int
  sym_refs :: "addr \<Rightarrow> int"
  resolve_log :: "addr option list"
  criticals :: nat

text \<open>
  \<^verbatim>\<open>g_return_if_fail\<close> and \<^verbatim>\<open>g_return_val_if_fail\<close> (GLib, checks enabled): when the
  condition is false a critical warning is logged and the function returns at once.
\<close>

definition g_return_if_fail_warning :: "world \<Rightarrow> world" where
  "g_return_if_fail_warning w = w\<lparr>criticals := criticals w + 1\<rparr>"

text \<open>
  Modelled from the spec: \<^verbatim>\<open>gtk_symbolic_color_ref\<close> and \<^verbatim>\<open>gtk_symbolic_color_unref\<close>
  (\<^verbatim>\<open>gtksymboliccolor.c\<close> is not among the sources).  The symbolic colour is a
  reference-counted external object: the element constructor takes a new owned reference
  to it, and destruction of the element releases that reference.
\<close>

definition gtk_symbolic_color_ref :: "addr \<Rightarrow> world \<Rightarrow> world" where
  "gtk_symbolic_color_ref sc w = w\<lparr>sym_refs := (sym_refs w)(sc := sym_refs w sc + 1)\<rparr>"

definition gtk_symbolic_color_unref :: "addr \<Rightarrow> world \<Rightarrow> world" where
  "gtk_symbolic_color_unref sc w = w\<lparr>sym_refs := (sym_refs w)(sc := sym_refs w sc - 1)\<rparr>"

text \<open>\<^verbatim>\<open>shadow_element_free\<close>, and \<^verbatim>\<open>g_list_free_full\<close> with it as the destroy function.\<close>

definition shadow_element_free :: "GtkShadowElement \<Rightarrow> world \<Rightarrow> world" where
  "shadow_element_free element w =
     (let w = (case symbolic_color element of
                 Some sc \<Rightarrow> gtk_symbolic_color_unref sc w
               | None \<Rightarrow> w)
      in w\<lparr>live_elements := live_elements w - 1\<rparr>)"

fun g_list_free_full :: "GtkShadowElement list \<Rightarrow> world \<Rightarrow> world" where
  "g_list_free_full [] w = w"
| "g_list_free_full (element # l) w = g_list_free_full l (shadow_element_free element w)"

text \<open>
  \<^verbatim>\<open>shadow_element_new\<close>: the block is zero-filled, the four \<^verbatim>\<open>gdouble\<close> arguments are
  converted to \<^verbatim>\<open>gint16\<close> in the order of the assignments, then the symbolic colour is
  referenced when it is not \<^verbatim>\<open>NULL\<close>, then the colour is copied when it is not \<^verbatim>\<open>NULL\<close>.
\<close>

definition shadow_element_new ::
  "gdouble \<Rightarrow> gdouble \<Rightarrow> gdouble \<Rightarrow> gdouble \<Rightarrow> bool \<Rightarrow> GdkRGBA option \<Rightarrow> addr option
     \<Rightarrow> world \<Rightarrow> fault + (GtkShadowElement \<times> world)" where
  "shadow_element_new hoffset' voffset' radius' spread' inset' color' symbolic_color' w =
     (let retval = \<lparr>hoffset = 0, voffset = 0, radius = 0, spread = 0, inset = False,
                     color = rgba_zero, symbolic_color = None\<rparr>;
          w = w\<lparr>live_elements := live_elements w + 1\<rparr>
      in (case gdouble_to_gint16 hoffset' of
            Inl f \<Rightarrow> Inl f
          | Inr h \<Rightarrow>
         (case gdouble_to_gint16 voffset' of
            Inl f \<Rightarrow> Inl f
          | Inr v \<Rightarrow>
         (case gdouble_to_gint16 radius' of
            Inl f \<Rightarrow> Inl f
          | Inr r \<Rightarrow>
         (case gdouble_to_gint16 spread' of
            Inl f \<Rightarrow> Inl f
          | Inr s \<Rightarrow>
              (let retval = retval\<lparr>hoffset := h, voffset := v, radius := r, spread := s,
                                    inset := inset'\<rparr>;
                   retval = (case symbolic_color' of
                               Some sc \<Rightarrow> retval\<lparr>symbolic_color := Some sc\<rparr>
                             | None \<Rightarrow> retval);
                   w = (case symbolic_color' of
                          Some sc \<Rightarrow> gtk_symbolic_color_ref sc w
                        | None \<Rightarrow> w);
                   retval = (case color' of
                               Some c \<Rightarrow> retval\<lparr>color := c\<rparr>
                             | None \<Rightarrow> retval)
               in Inr (retval, w)))))))"

section \<open>Shadow lists\<close>

definition gtk_shadow_new :: "world \<Rightarrow> addr \<times> world" where
  "gtk_shadow_new w =
     (let retval = next_addr w
      in (retval,
          w\<lparr>shadows := (shadows w)(retval \<mapsto> \<lparr>elements = [], ref_count = 1, resolved = False\<rparr>),
            next_addr := Suc retval\<rparr>))"

definition gtk_shadow_ref :: "addr option \<Rightarrow> world \<Rightarrow> fault + (addr option \<times> world)" where
  "gtk_shadow_ref shadow w =
     (case shadow of
        None \<Rightarrow> Inr (None, g_return_if_fail_warning w)
      | Some p \<Rightarrow>
          (case shadows w p of
             None \<Rightarrow> Inl Invalid_pointer
           | Some sh \<Rightarrow>
               Inr (Some p, w\<lparr>shadows := (shadows w)(p \<mapsto> sh\<lparr>ref_count := ref_count sh + 1\<rparr>)\<rparr>)))"

definition gtk_shadow_get_resolved :: "addr option \<Rightarrow> world \<Rightarrow> fault + bool" where
  "gtk_shadow_get_resolved shadow w =
     (case shadow of
        None \<Rightarrow> Inl Null_dereference
      | Some p \<Rightarrow> (case shadows w p of None \<Rightarrow> Inl Invalid_pointer | Some sh \<Rightarrow> Inr (resolved sh)))"

definition gtk_shadow_unref :: "addr option \<Rightarrow> world \<Rightarrow> fault + world" where
  "gtk_shadow_unref shadow w =
     (case shadow of
        None \<Rightarrow> Inr (g_return_if_fail_warning w)
      | Some p \<Rightarrow>
          (case shadows w p of
             None \<Rightarrow> Inl Invalid_pointer
           | Some sh \<Rightarrow>
               (let sh = sh\<lparr>ref_count := ref_count sh - 1\<rparr>;
                    w = w\<lparr>shadows := (shadows w)(p \<mapsto> sh)\<rparr>
                in if ref_count sh = 0
                   then (let w = g_list_free_full (elements sh) w
                         in Inr (w\<lparr>shadows := (shadows w)(p := None)\<rparr>))
                   else Inr w)))"

definition gtk_shadow_append ::
  "addr option \<Rightarrow> gdouble \<Rightarrow> gdouble \<Rightarrow> gdouble \<Rightarrow> gdouble \<Rightarrow> bool \<Rightarrow> addr option
     \<Rightarrow> world \<Rightarrow> fault + world" where
  "gtk_shadow_append shadow hoffset' voffset' radius' spread' inset' color' w =
     (case shadow of
        None \<Rightarrow> Inr (g_return_if_fail_warning w)
      | Some p \<Rightarrow>
          (case color' of
             None \<Rightarrow> Inr (g_return_if_fail_warning w)
           | Some sc \<Rightarrow>
               (case shadow_element_new hoffset' voffset' radius' spread' inset' None (Some sc) w of
                  Inl f \<Rightarrow> Inl f
                | Inr (element, w) \<Rightarrow>
                    (case shadows w p of
                       None \<Rightarrow> Inl Invalid_pointer
                     | Some sh \<Rightarrow>
                         Inr (w\<lparr>shadows :=
                                  (shadows w)(p \<mapsto> sh\<lparr>elements := elements sh @ [element]\<rparr>)\<rparr>)))))"

section \<open>Resolution\<close>

text \<open>
  \<^verbatim>\<open>gtk_symbolic_color_resolve\<close> lives outside the file and is a parameter: given the
  (possibly \<^verbatim>\<open>NULL\<close>) symbolic colour and the property set it yields the colour, or fails.
\<close>

type_synonym resolver = "addr option \<Rightarrow> addr option \<Rightarrow> GdkRGBA option"

text \<open>
  The \<^verbatim>\<open>for\<close> loop of \<^verbatim>\<open>_gtk_shadow_resolve\<close> over the nodes of the source list, with
  the two statements that follow it.  \<open>resolved_shadow\<close> is the address of the output
  list.
\<close>

fun resolve_elements ::
  "resolver \<Rightarrow> addr option \<Rightarrow> addr \<Rightarrow> GtkShadowElement list \<Rightarrow> world
     \<Rightarrow> fault + (addr option \<times> world)" where
  "resolve_elements gtk_symbolic_color_resolve props resolved_shadow [] w =
     (case shadows w resolved_shadow of
        None \<Rightarrow> Inl Invalid_pointer
      | Some rsh \<Rightarrow>
          Inr (Some resolved_shadow,
               w\<lparr>shadows := (shadows w)(resolved_shadow \<mapsto> rsh\<lparr>resolved := True\<rparr>)\<rparr>))"
| "resolve_elements gtk_symbolic_color_resolve props resolved_shadow (element # l) w =
     (let w = w\<lparr>resolve_log := resolve_log w @ [symbolic_color element]\<rparr>
      in case gtk_symbolic_color_resolve (symbolic_color element) props of
           None \<Rightarrow>
             (case gtk_shadow_unref (Some resolved_shadow) w of
                Inl f \<Rightarrow> Inl f
              | Inr w \<Rightarrow> Inr (None, w))
         | Some c \<Rightarrow>
             (case shadow_element_new
                     (gint16_to_gdouble (hoffset element)) (gint16_to_gdouble (voffset element))
                     (gint16_to_gdouble (radius element)) (gint16_to_gdouble (spread element))
                     (inset element) (Some c) None w of
                Inl f \<Rightarrow> Inl f
              | Inr (resolved_element, w) \<Rightarrow>
                  (case shadows w resolved_shadow of
                     None \<Rightarrow> Inl Invalid_pointer
                   | Some rsh \<Rightarrow>
                       resolve_elements gtk_symbolic_color_resolve props resolved_shadow l
                         (w\<lparr>shadows := (shadows w)
                               (resolved_shadow \<mapsto>
                                  rsh\<lparr>elements := elements rsh @ [resolved_element]\<rparr>)\<rparr>))))"

definition gtk_shadow_resolve ::
  "resolver \<Rightarrow> addr option \<Rightarrow> addr option \<Rightarrow> world \<Rightarrow> fault + (addr option \<times> world)" where
  "gtk_shadow_resolve gtk_symbolic_color_resolve shadow props w =
     (case shadow of
        None \<Rightarrow> Inl Null_dereference
      | Some p \<Rightarrow>
          (case shadows w p of
             None \<Rightarrow> Inl Invalid_pointer
           | Some sh \<Rightarrow>
               if resolved sh then gtk_shadow_ref shadow w
               else (let (resolved_shadow, w) = gtk_shadow_new w
                     in case shadows w p of
                          None \<Rightarrow> Inl Invalid_pointer
                        | Some sh \<Rightarrow>
                            resolve_elements gtk_symbolic_color_resolve props resolved_shadow
                              (elements sh) w)))"

section \<open>Serialization of a list\<close>

text \<open>The second loop of \<^verbatim>\<open>_gtk_shadow_to_string\<close>, from the second node on.\<close>

fun to_string_rest :: "(GtkShadowElement \<Rightarrow> string) \<Rightarrow> GtkShadowElement list \<Rightarrow> string \<Rightarrow> string" where
  "to_string_rest element_to_string [] str = str"
| "to_string_rest element_to_string (element # l) str =
     to_string_rest element_to_string l (str @ '', '' @ element_to_string element)"

definition gtk_shadow_to_string ::
  "(addr \<Rightarrow> string) \<Rightarrow> (GdkRGBA \<Rightarrow> string) \<Rightarrow> addr option \<Rightarrow> world \<Rightarrow> fault + string option" where
  "gtk_shadow_to_string gtk_symbolic_color_to_string gdk_rgba_to_string shadow w =
     (case shadow of
        None \<Rightarrow> Inl Null_dereference
      | Some p \<Rightarrow>
          (case shadows w p of
             None \<Rightarrow> Inl Invalid_pointer
           | Some sh \<Rightarrow>
               (let element_to_string =
                      shadow_element_to_string gtk_symbolic_color_to_string gdk_rgba_to_string;
                    len = length (elements sh)
                in if len = 0 then Inr None
                   else (let str = [] @ element_to_string (hd (elements sh))
                         in if len = 1 then Inr (Some str)
                            else Inr (Some (to_string_rest element_to_string
                                              (tl (elements sh)) str))))))"

section \<open>Painting\<close>

text \<open>
  The drawing context is known by the answer of \<^verbatim>\<open>cairo_has_current_point\<close> and by the
  calls made on it, in order: each function of the cairo library records its call, and a
  move establishes the current point.  Modelled from the spec: \<^verbatim>\<open>_gtk_pango_fill_layout\<close>
  (\<^verbatim>\<open>gtkpango.c\<close> is not among the sources) fills the outline of the layout at the
  current point with the current source; here it records that call.  The layout is an
  opaque pointer.  The offsets reach
  \<^verbatim>\<open>cairo_rel_move_to\<close> as doubles: \<^verbatim>\<open>-element->hoffset\<close> is negated as an \<^verbatim>\<open>int\<close>, after
  the integer promotion, so it does not wrap.
\<close>

datatype cairo_call =
    Move_to gdouble gdouble
  | Save
  | Rel_move_to gdouble gdouble
  | Set_source_rgba GdkRGBA
  | Fill_layout addr
  | Restore

record cairo_t =
  has_current_point :: bool
  calls :: "cairo_call list"

definition cairo_move_to :: "cairo_t \<Rightarrow> gdouble \<Rightarrow> gdouble \<Rightarrow> cairo_t" where
  "cairo_move_to cr x y = cr\<lparr>has_current_point := True, calls := calls cr @ [Move_to x y]\<rparr>"

definition cairo_save :: "cairo_t \<Rightarrow> cairo_t" where
  "cairo_save cr = cr\<lparr>calls := calls cr @ [Save]\<rparr>"

definition cairo_rel_move_to :: "cairo_t \<Rightarrow> gdouble \<Rightarrow> gdouble \<Rightarrow> cairo_t" where
  "cairo_rel_move_to cr dx dy = cr\<lparr>calls := calls cr @ [Rel_move_to dx dy]\<rparr>"

definition gdk_cairo_set_source_rgba :: "cairo_t \<Rightarrow> GdkRGBA \<Rightarrow> cairo_t" where
  "gdk_cairo_set_source_rgba cr rgba = cr\<lparr>calls := calls cr @ [Set_source_rgba rgba]\<rparr>"

definition gtk_pango_fill_layout :: "cairo_t \<Rightarrow> addr \<Rightarrow> cairo_t" where
  "gtk_pango_fill_layout cr layout = cr\<lparr>calls := calls cr @ [Fill_layout layout]\<rparr>"

definition cairo_restore :: "cairo_t \<Rightarrow> cairo_t" where
  "cairo_restore cr = cr\<lparr>calls := calls cr @ [Restore]\<rparr>"

text \<open>The body of the paint loop, for one element.\<close>

definition paint_element :: "addr \<Rightarrow> GtkShadowElement \<Rightarrow> cairo_t \<Rightarrow> cairo_t" where
  "paint_element layout element cr =
     (let cr = cairo_save cr;
          cr = cairo_rel_move_to cr (of_int (sint (hoffset element)))
                                    (of_int (sint (voffset element)));
          cr = gdk_cairo_set_source_rgba cr (color element);
          cr = gtk_pango_fill_layout cr layout;
          cr = cairo_rel_move_to cr (of_int (- sint (hoffset element)))
                                    (of_int (- sint (voffset element)))
      in cairo_restore cr)"

text \<open>
  The loop \<^verbatim>\<open>for (l = g_list_last (shadow->elements); l != NULL; l = l->prev)\<close>: the
  argument is the list up to and including the node \<open>l\<close>.
\<close>

function paint_from_last :: "addr \<Rightarrow> GtkShadowElement list \<Rightarrow> cairo_t \<Rightarrow> cairo_t" where
  "paint_from_last layout l cr =
     (if l = [] then cr
      else paint_from_last layout (butlast l) (paint_element layout (last l) cr))"
  by pat_completeness auto
termination
  by (relation "measure (\<lambda>(layout, l, cr). length l)") auto

declare paint_from_last.simps [simp del]

definition gtk_text_shadow_paint_layout ::
  "addr option \<Rightarrow> cairo_t \<Rightarrow> addr \<Rightarrow> world \<Rightarrow> fault + (cairo_t \<times> world)" where
  "gtk_text_shadow_paint_layout shadow cr layout w =
     (let cr = (if \<not> has_current_point cr then cairo_move_to cr 0 0 else cr)
      in case shadow of
           None \<Rightarrow> Inl Null_dereference
         | Some p \<Rightarrow>
             (case shadows w p of
                None \<Rightarrow> Inl Invalid_pointer
              | Some sh \<Rightarrow> Inr (paint_from_last layout (elements sh) cr, w)))"

section \<open>Specification vocabulary\<close>

text \<open>
  The allocator's contract: no address at or above the break is in use, so the block that
  \<^verbatim>\<open>g_slice_new0\<close> hands out is a fresh one.
\<close>

definition allocator_ok :: "world \<Rightarrow> bool" where
  "allocator_ok w = (\<forall>a. next_addr w \<le> a \<longrightarrow> shadows w a = None)"

text \<open>An element is symbolic when it carries a symbolic colour, concrete otherwise.\<close>

definition is_concrete :: "GtkShadowElement \<Rightarrow> bool" where
  "is_concrete e = (symbolic_color e = None)"

definition is_symbolic :: "GtkShadowElement \<Rightarrow> bool" where
  "is_symbolic e = (symbolic_color e \<noteq> None)"

text \<open>
  The resolved form of an element, in the spec's words: the resolved colour, all other
  fields copied verbatim, no symbolic reference retained.
\<close>

definition concrete_copy :: "GdkRGBA \<Rightarrow> GtkShadowElement \<Rightarrow> GtkShadowElement" where
  "concrete_copy c e = e\<lparr>color := c, symbolic_color := None\<rparr>"

definition resolved_copy :: "resolver \<Rightarrow> addr option \<Rightarrow> GtkShadowElement \<Rightarrow> GtkShadowElement" where
  "resolved_copy R props e = concrete_copy (the (R (symbolic_color e) props)) e"

text \<open>Joining texts with a separator, in the spec's words.\<close>

fun join_with :: "string \<Rightarrow> string list \<Rightarrow> string" where
  "join_with sep [] = []"
| "join_with sep [x] = x"
| "join_with sep (x # y # ys) = x @ sep @ join_with sep (y # ys)"

text \<open>
  The calls the spec asks for one layer: save, move by the offset, set the colour, fill,
  move back, restore.
\<close>

definition layer_calls :: "addr \<Rightarrow> GtkShadowElement \<Rightarrow> cairo_call list" where
  "layer_calls layout e =
     [Save,
      Rel_move_to (of_int (sint (hoffset e))) (of_int (sint (voffset e))),
      Set_source_rgba (color e),
      Fill_layout layout,
      Rel_move_to (- of_int (sint (hoffset e))) (- of_int (sint (voffset e))),
      Restore]"

text \<open>
  The worlds that the public operations reach from an empty store.  The spec defines
  append only on a list that is not resolved; the code does not check it, so the
  restriction is a premise of the rule.
\<close>

inductive reachable :: "world \<Rightarrow> bool" where
  start: "shadows w = Map.empty \<Longrightarrow> reachable w"
| new: "reachable w \<Longrightarrow> gtk_shadow_new w = (p, w') \<Longrightarrow> reachable w'"
| ref: "reachable w \<Longrightarrow> gtk_shadow_ref shadow w = Inr (r, w') \<Longrightarrow> reachable w'"
| unref: "reachable w \<Longrightarrow> gtk_shadow_unref shadow w = Inr w' \<Longrightarrow> reachable w'"
| append: "reachable w \<Longrightarrow> gtk_shadow_get_resolved shadow w \<noteq> Inr True \<Longrightarrow>
           gtk_shadow_append shadow h v r s ins col w = Inr w' \<Longrightarrow> reachable w'"
| resolve: "reachable w \<Longrightarrow> gtk_shadow_resolve R shadow props w = Inr (r, w') \<Longrightarrow> reachable w'"
| to_string: "reachable w \<Longrightarrow> gtk_shadow_to_string sym_text rgba_text shadow w = Inr t \<Longrightarrow>
              reachable w"
| paint: "reachable w \<Longrightarrow> gtk_text_shadow_paint_layout shadow cr layout w = Inr (cr', w') \<Longrightarrow>
          reachable w'"

text \<open>
  Reading a decimal numeral, as a reader of the serialized text does; it does not refer to
  the printer.  A numeral is a non-empty row of digits without a leading zero (the single
  digit 0 apart), read from the left in base ten; a signed numeral is a numeral, or a minus
  sign before a numeral that is not zero.  Anything else is not read.
\<close>

definition digit_value :: "char \<Rightarrow> nat option" where
  "digit_value c =
     map_of [(CHR ''0'', 0), (CHR ''1'', 1), (CHR ''2'', 2), (CHR ''3'', 3), (CHR ''4'', 4),
             (CHR ''5'', 5), (CHR ''6'', 6), (CHR ''7'', 7), (CHR ''8'', 8), (CHR ''9'', 9)] c"

primrec read_digits :: "nat \<Rightarrow> string \<Rightarrow> nat option" where
  "read_digits acc [] = Some acc"
| "read_digits acc (c # cs) =
     (case digit_value c of
        None \<Rightarrow> None
      | Some d \<Rightarrow> read_digits (10 * acc + d) cs)"

definition read_nat :: "string \<Rightarrow> nat option" where
  "read_nat t =
     (if t = [] \<or> (hd t = CHR ''0'' \<and> tl t \<noteq> []) then None else read_digits 0 t)"

definition read_d :: "string \<Rightarrow> int option" where
  "read_d t =
     (case t of
        [] \<Rightarrow> None
      | c # cs \<Rightarrow>
          if c = CHR ''-''
          then (case read_nat cs of
                  None \<Rightarrow> None
                | Some n \<Rightarrow> if n = 0 then None else Some (- int n))
          else map_option int (read_nat t))"

text \<open>
  A double fits a \<^verbatim>\<open>gint16\<close> field when its integral part is representable in 16 bits; an
  element stores the truncations of four doubles when its fields read as these integers.
\<close>

definition fits_gint16 :: "gdouble \<Rightarrow> bool" where
  "fits_gint16 x = (- 32768 \<le> trunc_toward_zero x \<and> trunc_toward_zero x \<le> 32767)"

definition stores_truncated ::
  "gdouble \<Rightarrow> gdouble \<Rightarrow> gdouble \<Rightarrow> gdouble \<Rightarrow> GtkShadowElement \<Rightarrow> bool" where
  "stores_truncated h v r s e =
     (sint (hoffset e) = trunc_toward_zero h \<and> sint (voffset e) = trunc_toward_zero v
      \<and> sint (radius e) = trunc_toward_zero r \<and> sint (spread e) = trunc_toward_zero s)"

text \<open>
  The resolved flag agrees with the elements: a resolved list holds concrete elements only,
  a list that is not resolved holds symbolic elements only.  A store is consistent when
  the allocator's contract holds and the flag of every list agrees with its elements.
\<close>

definition flag_ok :: "GtkShadow \<Rightarrow> bool" where
  "flag_ok sh =
     (if resolved sh then list_all is_concrete (elements sh)
      else list_all is_symbolic (elements sh))"

definition store_inv :: "world \<Rightarrow> bool" where
  "store_inv w = (allocator_ok w \<and> (\<forall>p sh. shadows w p = Some sh \<longrightarrow> flag_ok sh))"

section \<open>Example data\<close>

definition empty_world :: world where
  "empty_world = \<lparr>shadows = Map.empty, next_addr = 1, live_elements = 0, sym_refs = (\<lambda>_. 1),
                    resolve_log = [], criticals = 0\<rparr>"

definition layer_a :: GtkShadowElement where
  "layer_a = \<lparr>hoffset = 2, voffset = 2, radius = 0, spread = 0, inset = False,
              color = rgba_zero, symbolic_color = Some 7\<rparr>"

definition layer_b :: GtkShadowElement where
  "layer_b = \<lparr>hoffset = - 1, voffset = 3, radius = - 4, spread = 5, inset = True,
              color = rgba_zero, symbolic_color = Some 8\<rparr>"

definition two_layers :: GtkShadow where
  "two_layers = \<lparr>elements = [layer_a, layer_b], ref_count = 1, resolved = False\<rparr>"

definition two_layer_world :: world where
  "two_layer_world = \<lparr>shadows = [1 \<mapsto> two_layers], next_addr = 2, live_elements = 2,
                        sym_refs = (\<lambda>_. 2), resolve_log = [], criticals = 0\<rparr>"

definition opaque_black :: GdkRGBA where
  "opaque_black = \<lparr>red = 0, green = 0, blue = 0, alpha = 1\<rparr>"

definition layer_c :: GtkShadowElement where
  "layer_c = \<lparr>hoffset = 2, voffset = 2, radius = 0, spread = 0, inset = False,
              color = opaque_black, symbolic_color = None\<rparr>"

definition layer_d :: GtkShadowElement where
  "layer_d = \<lparr>hoffset = - 120, voffset = 305, radius = - 32768, spread = 10, inset = True,
              color = opaque_black, symbolic_color = None\<rparr>"

definition resolved_layers :: GtkShadow where
  "resolved_layers = \<lparr>elements = [layer_c], ref_count = 1, resolved = True\<rparr>"

definition resolved_world :: world where
  "resolved_world = \<lparr>shadows = [1 \<mapsto> resolved_layers], next_addr = 2, live_elements = 1,
                       sym_refs = (\<lambda>_. 1), resolve_log = [], criticals = 0\<rparr>"

text \<open>A resolver that knows every colour, and one that knows the colour at address 7 only.\<close>

definition resolve_any :: resolver where
  "resolve_any sc props = Some opaque_black"

definition resolve_7 :: resolver where
  "resolve_7 sc props = (if sc = Some 7 then Some opaque_black else None)"

definition color_name :: "addr \<Rightarrow> string" where
  "color_name sc = (if sc = 7 then ''@fg'' else ''@bg'')"

definition rgba_name :: "GdkRGBA \<Rightarrow> string" where
  "rgba_name c = (if c = opaque_black then ''rgb(0,0,0)'' else ''rgba(0,0,0,0)'')"

section \<open>Conversions between doubles and 16-bit integers\<close>

lemma trunc_toward_zero_of_int: "trunc_toward_zero (of_int i) = i"
  by (simp add: trunc_toward_zero_def)

lemma sint_gint16_range: "- 32768 \<le> sint (x::gint16) \<and> sint x \<le> 32767"
  using sint_ge[of x] sint_lt[of x] by simp

lemma trunc_toward_zero_signed: "trunc_toward_zero (signed (x::gint16)) = sint x"
  using trunc_toward_zero_of_int[of "sint x"] by simp

lemma gint16_round_trip: "gdouble_to_gint16 (gint16_to_gdouble x) = Inr x"
  using sint_gint16_range[of x]
  by (simp add: gdouble_to_gint16_def gint16_to_gdouble_def trunc_toward_zero_signed)

lemma sint_word_of_int_gint16:
  assumes "- 32768 \<le> t" "t \<le> 32767"
  shows "sint (word_of_int t :: gint16) = t"
proof -
  have "signed_take_bit 15 t = t"
    using assms by (intro signed_take_bit_int_eq_self) simp_all
  then show ?thesis by (simp add: sint_sbintrunc')
qed

lemma gdouble_to_gint16_in_range:
  assumes "- 32768 \<le> trunc_toward_zero x" "trunc_toward_zero x \<le> 32767"
  shows "\<exists>y. gdouble_to_gint16 x = Inr y \<and> sint y = trunc_toward_zero x"
  using assms by (simp add: gdouble_to_gint16_def sint_word_of_int_gint16)

section \<open>Element construction\<close>

lemma shadow_element_new_copy:
  "shadow_element_new (gint16_to_gdouble h) (gint16_to_gdouble v) (gint16_to_gdouble r)
      (gint16_to_gdouble s) ins (Some c) None w =
   Inr (\<lparr>hoffset = h, voffset = v, radius = r, spread = s, inset = ins, color = c,
         symbolic_color = None\<rparr>, w\<lparr>live_elements := live_elements w + 1\<rparr>)"
  by (simp add: shadow_element_new_def gint16_round_trip)

lemma shadow_element_new_concrete_copy:
  "shadow_element_new (gint16_to_gdouble (hoffset e)) (gint16_to_gdouble (voffset e))
      (gint16_to_gdouble (radius e)) (gint16_to_gdouble (spread e)) (inset e) (Some c) None w =
   Inr (concrete_copy c e, w\<lparr>live_elements := live_elements w + 1\<rparr>)"
  by (simp add: shadow_element_new_copy concrete_copy_def)

lemma resolved_copy_fields:
  assumes "R (symbolic_color e) props \<noteq> None"
  shows "R (symbolic_color e) props = Some (color (resolved_copy R props e))"
    and "hoffset (resolved_copy R props e) = hoffset e"
    and "voffset (resolved_copy R props e) = voffset e"
    and "radius (resolved_copy R props e) = radius e"
    and "spread (resolved_copy R props e) = spread e"
    and "inset (resolved_copy R props e) = inset e"
    and "symbolic_color (resolved_copy R props e) = None"
  using assms by (auto simp: resolved_copy_def concrete_copy_def)

section \<open>Element serialization\<close>

text \<open>The printer of \<^verbatim>\<open>%d\<close> against the reader of decimal numerals.\<close>

lemma digit_char_cases:
  assumes "d < 10"
  shows "d = 0 \<or> d = 1 \<or> d = 2 \<or> d = 3 \<or> d = 4 \<or> d = 5 \<or> d = 6 \<or> d = 7 \<or> d = 8 \<or> d = (9::nat)"
  using assms by arith

lemma digit_value_digit_char: "d < 10 \<Longrightarrow> digit_value (digit_char d) = Some d"
  using digit_char_cases[of d] by (auto simp: digit_value_def digit_char_def)

lemma digit_char_zero: "d < 10 \<Longrightarrow> (digit_char d = CHR ''0'') = (d = 0)"
  using digit_char_cases[of d] by (auto simp: digit_char_def)

lemma digit_char_not_minus: "d < 10 \<Longrightarrow> digit_char d \<noteq> CHR ''-''"
  using digit_char_cases[of d] by (auto simp: digit_char_def)

lemma read_digits_append:
  "read_digits acc (xs @ ys) =
     (case read_digits acc xs of None \<Rightarrow> None | Some a \<Rightarrow> read_digits a ys)"
  by (induction xs arbitrary: acc) (simp_all split: option.split)

lemma decimal_not_Nil: "decimal n \<noteq> []"
  by (subst decimal.simps) simp

lemma read_digits_decimal: "read_digits 0 (decimal n) = Some n"
proof (induction n rule: decimal.induct)
  case (1 n)
  show ?case
  proof (cases "n < 10")
    case True
    then show ?thesis
      by (subst decimal.simps) (simp add: digit_value_digit_char)
  next
    case False
    with "1.IH" have "read_digits 0 (decimal (n div 10)) = Some (n div 10)" by simp
    with False show ?thesis
      by (subst decimal.simps) (simp add: read_digits_append digit_value_digit_char)
  qed
qed

lemma hd_decimal_zero: "(hd (decimal n) = CHR ''0'') = (n = 0)"
proof (induction n rule: decimal.induct)
  case (1 n)
  show ?case
  proof (cases "n < 10")
    case True
    then show ?thesis by (subst decimal.simps) (simp add: digit_char_zero)
  next
    case False
    with "1.IH" have "(hd (decimal (n div 10)) = CHR ''0'') = (n div 10 = 0)" by simp
    with False show ?thesis
      by (subst decimal.simps) (simp add: decimal_not_Nil)
  qed
qed

lemma hd_decimal_not_minus: "hd (decimal n) \<noteq> CHR ''-''"
proof (induction n rule: decimal.induct)
  case (1 n)
  show ?case
  proof (cases "n < 10")
    case True
    then show ?thesis by (subst decimal.simps) (simp add: digit_char_not_minus)
  next
    case False
    with "1.IH" have "hd (decimal (n div 10)) \<noteq> CHR ''-''" by simp
    with False show ?thesis
      by (subst decimal.simps) (simp add: decimal_not_Nil)
  qed
qed

lemma decimal_0: "decimal 0 = ''0''"
  by (subst decimal.simps) (simp add: digit_char_def)

lemma read_nat_decimal: "read_nat (decimal n) = Some n"
proof (cases "n = 0")
  case True
  then show ?thesis by (simp add: read_nat_def decimal_0 digit_value_def)
next
  case False
  then show ?thesis
    by (simp add: read_nat_def decimal_not_Nil hd_decimal_zero read_digits_decimal)
qed

lemma read_d_printf_d: "read_d (printf_d i) = Some i"
proof (cases "i < 0")
  case True
  then show ?thesis by (simp add: read_d_def printf_d_def read_nat_decimal)
next
  case False
  obtain c cs where cs: "decimal (nat i) = c # cs"
    using decimal_not_Nil[of "nat i"] by (cases "decimal (nat i)") auto
  with hd_decimal_not_minus[of "nat i"] have "c \<noteq> CHR ''-''" by simp
  with False cs read_nat_decimal[of "nat i"] show ?thesis
    by (simp add: read_d_def printf_d_def)
qed

lemma digit_value_Some:
  assumes "digit_value c = Some d"
  shows "d < 10" and "c = digit_char d"
  using assms by (auto simp: digit_value_def digit_char_def split: if_splits)

lemma read_nat_unique: "read_nat t = Some n \<Longrightarrow> t = decimal n"
proof (induction t arbitrary: n rule: rev_induct)
  case Nil
  then show ?case by (simp add: read_nat_def)
next
  case (snoc c xs)
  show ?case
  proof (cases "xs = []")
    case True
    with snoc.prems have "digit_value c = Some n"
      by (simp add: read_nat_def split: option.splits)
    from digit_value_Some[OF this] True show ?thesis
      by (subst decimal.simps) simp
  next
    case False
    with snoc.prems have hd: "hd xs \<noteq> CHR ''0''"
      and run: "read_digits 0 (xs @ [c]) = Some n"
      by (auto simp: read_nat_def split: if_splits)
    from run obtain a d where a: "read_digits 0 xs = Some a"
      and d: "digit_value c = Some d" and n: "n = 10 * a + d"
      by (auto simp: read_digits_append split: option.splits)
    from False hd a have "read_nat xs = Some a" by (simp add: read_nat_def)
    then have xs: "xs = decimal a" by (rule snoc.IH)
    with hd have "a \<noteq> 0" by (simp add: hd_decimal_zero)
    note dd = digit_value_Some[OF d]
    from \<open>a \<noteq> 0\<close> n dd(1) have "\<not> n < 10" "n div 10 = a" "n mod 10 = d" by simp_all
    with xs dd(2) show ?thesis
      by (subst decimal.simps) simp
  qed
qed

lemma read_d_unique: "read_d t = Some i \<Longrightarrow> t = printf_d i"
proof (cases t)
  case Nil
  assume "read_d t = Some i"
  with Nil show ?thesis by (simp add: read_d_def)
next
  case (Cons c cs)
  assume r: "read_d t = Some i"
  show ?thesis
  proof (cases "c = CHR ''-''")
    case True
    with r Cons obtain n where "read_nat cs = Some n" and "n \<noteq> 0" and "i = - int n"
      by (auto simp: read_d_def split: option.splits if_splits)
    with read_nat_unique[of cs n] Cons True show ?thesis by (simp add: printf_d_def)
  next
    case False
    with r Cons obtain n where "read_nat t = Some n" and "i = int n"
      by (auto simp: read_d_def)
    with read_nat_unique[of t n] show ?thesis by (simp add: printf_d_def)
  qed
qed

lemma read_d_iff: "(read_d t = Some i) = (t = printf_d i)"
  using read_d_unique[of t i] read_d_printf_d[of i] by auto

lemma decimal_digit: "n < 10 \<Longrightarrow> decimal n = [digit_char n]"
  by (subst decimal.simps) simp

lemma decimal_step: "10 \<le> n \<Longrightarrow> decimal n = decimal (n div 10) @ [digit_char (n mod 10)]"
  by (subst decimal.simps) simp

text \<open>
  C9.  The text of an element is, in this order: \<open>inset \<close> exactly when the inset flag
  is set; the horizontal and the vertical offset, always; the radius exactly when it is not
  zero (a negative radius is printed); the spread exactly when it is not zero; then the
  colour, printed by the symbolic colour's printer when the element carries a symbolic
  colour and by the concrete colour's printer otherwise.  Every number is followed by one
  space, and the text printed for a number is its decimal numeral: it is the one text
  that the reader of signed decimal numerals reads as that number.
\<close>

theorem element_text_format:
  "shadow_element_to_string sym_text rgba_text e =
     (if inset e then ''inset '' else [])
     @ printf_d (sint (hoffset e)) @ '' '' @ printf_d (sint (voffset e)) @ '' ''
     @ (if radius e \<noteq> 0 then printf_d (sint (radius e)) @ '' '' else [])
     @ (if spread e \<noteq> 0 then printf_d (sint (spread e)) @ '' '' else [])
     @ (case symbolic_color e of Some sc \<Rightarrow> sym_text sc | None \<Rightarrow> rgba_text (color e))
   \<and> (read_d t = Some i) = (t = printf_d i)"
proof
  show "shadow_element_to_string sym_text rgba_text e =
     (if inset e then ''inset '' else [])
     @ printf_d (sint (hoffset e)) @ '' '' @ printf_d (sint (voffset e)) @ '' ''
     @ (if radius e \<noteq> 0 then printf_d (sint (radius e)) @ '' '' else [])
     @ (if spread e \<noteq> 0 then printf_d (sint (spread e)) @ '' '' else [])
     @ (case symbolic_color e of Some sc \<Rightarrow> sym_text sc | None \<Rightarrow> rgba_text (color e))"
    by (simp add: shadow_element_to_string_def)
  show "(read_d t = Some i) = (t = printf_d i)" by (rule read_d_iff)
qed

theorem element_text_format_witness:
  "shadow_element_to_string color_name rgba_name layer_d =
     ''inset -120 305 -32768 10 rgb(0,0,0)''
   \<and> shadow_element_to_string color_name rgba_name layer_a = ''2 2 @fg''
   \<and> shadow_element_to_string color_name rgba_name
       (layer_a\<lparr>hoffset := 10, spread := 5\<rparr>) = ''10 2 5 @fg''
   \<and> shadow_element_to_string color_name rgba_name
       (layer_a\<lparr>voffset := 0, radius := 3\<rparr>) = ''2 0 3 @fg''
   \<and> read_d ''-32768'' = Some (- 32768)
   \<and> printf_d 305 = ''305''"
proof -
  have p: "printf_d (- 120) = ''-120''" "printf_d 305 = ''305''"
    "printf_d (- 32768) = ''-32768''"
    "printf_d 2 = ''2''" "printf_d 10 = ''10''" "printf_d 5 = ''5''"
    "printf_d 3 = ''3''" "printf_d 0 = ''0''"
    by (simp_all add: printf_d_def decimal_digit decimal_step digit_char_def)
  have d: "shadow_element_to_string color_name rgba_name layer_d =
     ''inset -120 305 -32768 10 rgb(0,0,0)''"
    using element_text_format[of color_name rgba_name layer_d, THEN conjunct1]
    by (simp add: layer_d_def p rgba_name_def)
  have a: "shadow_element_to_string color_name rgba_name layer_a = ''2 2 @fg''"
    using element_text_format[of color_name rgba_name layer_a, THEN conjunct1]
    by (simp add: layer_a_def p color_name_def)
  have b: "shadow_element_to_string color_name rgba_name
       (layer_a\<lparr>hoffset := 10, spread := 5\<rparr>) = ''10 2 5 @fg''"
    using element_text_format[of color_name rgba_name "layer_a\<lparr>hoffset := 10, spread := 5\<rparr>", THEN conjunct1]
    by (simp add: layer_a_def p color_name_def)
  have c: "shadow_element_to_string color_name rgba_name
       (layer_a\<lparr>voffset := 0, radius := 3\<rparr>) = ''2 0 3 @fg''"
    using element_text_format[of color_name rgba_name "layer_a\<lparr>voffset := 0, radius := 3\<rparr>", THEN conjunct1]
    by (simp add: layer_a_def p color_name_def)
  have r: "read_d ''-32768'' = Some (- 32768)"
    using element_text_format[of color_name rgba_name layer_a "''-32768''" "- 32768", THEN conjunct2]
      p(3)[symmetric]
    by (rule iffD2)
  from d a b c r p(2) show ?thesis by simp
qed

section \<open>Append on a null handle or with a null colour\<close>

text \<open>
  C10.  Append on a \<^verbatim>\<open>NULL\<close> list, or with a \<^verbatim>\<open>NULL\<close> symbolic colour, returns normally
  whatever the other arguments are: no element is built, no list changes, and the only
  effect is the critical warning of the failed check.
\<close>

theorem append_null_is_checked_no_op:
  "gtk_shadow_append None h v r s ins col w = Inr (w\<lparr>criticals := criticals w + 1\<rparr>)
   \<and> gtk_shadow_append shadow h v r s ins None w = Inr (w\<lparr>criticals := criticals w + 1\<rparr>)"
  by (simp add: gtk_shadow_append_def g_return_if_fail_warning_def split: option.split)

section \<open>The resolution loop\<close>

lemma g_list_free_full_concrete:
  "\<forall>e\<in>set l. symbolic_color e = None \<Longrightarrow>
   g_list_free_full l w = w\<lparr>live_elements := live_elements w - int (length l)\<rparr>"
  by (induction l arbitrary: w) (simp_all add: shadow_element_free_def)

lemma shadow_element_free_shadows: "shadows (shadow_element_free e v) = shadows v"
  by (cases "symbolic_color e") (simp_all add: shadow_element_free_def gtk_symbolic_color_unref_def)

lemma g_list_free_full_shadows: "shadows (g_list_free_full l v) = shadows v"
  by (induction l arbitrary: v) (simp_all add: shadow_element_free_shadows)

lemma gtk_shadow_unref_last:
  assumes "shadows w p = Some sh" and "ref_count sh = 1"
  shows "gtk_shadow_unref (Some p) w =
         Inr ((g_list_free_full (elements sh) w)
                \<lparr>shadows := (shadows (g_list_free_full (elements sh) w))(p := None)\<rparr>)"
proof -
  have free1: "shadow_element_free e (v\<lparr>shadows := m\<rparr>) = (shadow_element_free e v)\<lparr>shadows := m\<rparr>"
    for e v m
    by (cases "symbolic_color e")
       (simp_all add: shadow_element_free_def gtk_symbolic_color_unref_def)
  have frame: "g_list_free_full l (v\<lparr>shadows := m\<rparr>) = (g_list_free_full l v)\<lparr>shadows := m\<rparr>" for l v m
    by (induction l arbitrary: v) (simp_all add: free1)
  have "gtk_shadow_unref (Some p) w =
        Inr ((g_list_free_full (elements sh) (w\<lparr>shadows := (shadows w)(p \<mapsto> sh\<lparr>ref_count := 0\<rparr>)\<rparr>))
               \<lparr>shadows := (shadows (g_list_free_full (elements sh)
                   (w\<lparr>shadows := (shadows w)(p \<mapsto> sh\<lparr>ref_count := 0\<rparr>)\<rparr>)))(p := None)\<rparr>)"
    using assms by (simp add: gtk_shadow_unref_def Let_def)
  also have "(g_list_free_full (elements sh) (w\<lparr>shadows := (shadows w)(p \<mapsto> sh\<lparr>ref_count := 0\<rparr>)\<rparr>))
               \<lparr>shadows := (shadows (g_list_free_full (elements sh)
                   (w\<lparr>shadows := (shadows w)(p \<mapsto> sh\<lparr>ref_count := 0\<rparr>)\<rparr>)))(p := None)\<rparr>
        = (g_list_free_full (elements sh) w)
                \<lparr>shadows := (shadows (g_list_free_full (elements sh) w))(p := None)\<rparr>"
    unfolding frame by (rule world.equality) (simp_all add: g_list_free_full_shadows)
  finally show ?thesis .
qed

lemma resolve_elements_Nil:
  assumes "shadows w rs = Some rsh"
  shows "resolve_elements R props rs [] w =
         Inr (Some rs, w\<lparr>shadows := (shadows w)(rs \<mapsto> rsh\<lparr>resolved := True\<rparr>)\<rparr>)"
  using assms by simp

lemma resolve_elements_Cons_Some:
  assumes "shadows w rs = Some rsh" and "R (symbolic_color e) props = Some c"
  shows "resolve_elements R props rs (e # l) w =
         resolve_elements R props rs l
           (w\<lparr>resolve_log := resolve_log w @ [symbolic_color e],
              live_elements := live_elements w + 1,
              shadows := (shadows w)(rs \<mapsto> rsh\<lparr>elements := elements rsh @ [concrete_copy c e]\<rparr>)\<rparr>)"
  using assms by (simp add: shadow_element_new_concrete_copy)

lemma resolve_elements_Cons_None:
  assumes "R (symbolic_color e) props = None"
  shows "resolve_elements R props rs (e # l) w =
         (case gtk_shadow_unref (Some rs) (w\<lparr>resolve_log := resolve_log w @ [symbolic_color e]\<rparr>) of
            Inl f \<Rightarrow> Inl f
          | Inr w \<Rightarrow> Inr (None, w))"
  using assms by simp

lemma resolve_elements_success:
  assumes "shadows w rs = Some rsh"
    and "\<forall>e\<in>set l. R (symbolic_color e) props \<noteq> None"
  shows "resolve_elements R props rs l w =
     Inr (Some rs,
          w\<lparr>shadows := (shadows w)(rs \<mapsto>
                 rsh\<lparr>elements := elements rsh @ map (resolved_copy R props) l, resolved := True\<rparr>),
            live_elements := live_elements w + int (length l),
            resolve_log := resolve_log w @ map symbolic_color l\<rparr>)"
  using assms
proof (induction l arbitrary: w rsh)
  case Nil
  have eq: "w\<lparr>shadows := (shadows w)(rs \<mapsto> rsh\<lparr>resolved := True\<rparr>)\<rparr> =
        w\<lparr>shadows := (shadows w)(rs \<mapsto>
                 rsh\<lparr>elements := elements rsh @ map (resolved_copy R props) [], resolved := True\<rparr>),
            live_elements := live_elements w + int (length ([]::GtkShadowElement list)),
            resolve_log := resolve_log w @ map symbolic_color []\<rparr>"
    by (rule world.equality) simp_all
  show ?case
    unfolding resolve_elements_Nil[OF Nil.prems(1)] by (rule arg_cong[OF eq])
next
  case (Cons e l)
  from Cons.prems obtain c where c: "R (symbolic_color e) props = Some c" by auto
  let ?rsh1 = "rsh\<lparr>elements := elements rsh @ [concrete_copy c e]\<rparr>"
  let ?w1 = "w\<lparr>resolve_log := resolve_log w @ [symbolic_color e],
               live_elements := live_elements w + 1,
               shadows := (shadows w)(rs \<mapsto> ?rsh1)\<rparr>"
  have a: "shadows ?w1 rs = Some ?rsh1" by simp
  have b: "\<forall>e\<in>set l. R (symbolic_color e) props \<noteq> None" using Cons.prems(2) by simp
  have eq: "?w1\<lparr>shadows := (shadows ?w1)(rs \<mapsto>
                 ?rsh1\<lparr>elements := elements ?rsh1 @ map (resolved_copy R props) l, resolved := True\<rparr>),
            live_elements := live_elements ?w1 + int (length l),
            resolve_log := resolve_log ?w1 @ map symbolic_color l\<rparr>
       = w\<lparr>shadows := (shadows w)(rs \<mapsto>
                 rsh\<lparr>elements := elements rsh @ map (resolved_copy R props) (e # l), resolved := True\<rparr>),
            live_elements := live_elements w + int (length (e # l)),
            resolve_log := resolve_log w @ map symbolic_color (e # l)\<rparr>"
    by (rule world.equality) (simp_all add: resolved_copy_def c)
  show ?case
    unfolding resolve_elements_Cons_Some[where R = R and props = props and e = e, OF Cons.prems(1) c]
      Cons.IH[OF a b] eq ..
qed

lemma resolve_elements_failure:
  assumes "shadows w rs = Some rsh"
    and "ref_count rsh = 1"
    and "\<forall>e\<in>set (elements rsh). symbolic_color e = None"
    and "\<forall>x\<in>set pre. R (symbolic_color x) props \<noteq> None"
    and "R (symbolic_color e) props = None"
  shows "resolve_elements R props rs (pre @ e # post) w =
     Inr (None,
          w\<lparr>shadows := (shadows w)(rs := None),
            live_elements := live_elements w - int (length (elements rsh)),
            resolve_log := resolve_log w @ map symbolic_color pre @ [symbolic_color e]\<rparr>)"
  using assms(1-4)
proof (induction pre arbitrary: w rsh)
  case Nil
  let ?w0 = "w\<lparr>resolve_log := resolve_log w @ [symbolic_color e]\<rparr>"
  have sh0: "shadows ?w0 rs = Some rsh" using Nil.prems(1) by simp
  have eq: "(g_list_free_full (elements rsh) ?w0)
                \<lparr>shadows := (shadows (g_list_free_full (elements rsh) ?w0))(rs := None)\<rparr>
          = w\<lparr>shadows := (shadows w)(rs := None),
               live_elements := live_elements w - int (length (elements rsh)),
               resolve_log := resolve_log w @ map symbolic_color [] @ [symbolic_color e]\<rparr>"
    unfolding g_list_free_full_concrete[OF Nil.prems(3)]
    by (rule world.equality) simp_all
  have "resolve_elements R props rs ([] @ e # post) w =
        (case gtk_shadow_unref (Some rs) ?w0 of Inl f \<Rightarrow> Inl f | Inr w \<Rightarrow> Inr (None, w))"
    unfolding append_Nil
    by (rule resolve_elements_Cons_None[where R = R and props = props and e = e, OF assms(5)])
  also have "\<dots> = Inr (None, (g_list_free_full (elements rsh) ?w0)
                \<lparr>shadows := (shadows (g_list_free_full (elements rsh) ?w0))(rs := None)\<rparr>)"
    unfolding gtk_shadow_unref_last[OF sh0 Nil.prems(2)] by (simp only: sum.case)
  also have "\<dots> = Inr (None, w\<lparr>shadows := (shadows w)(rs := None),
               live_elements := live_elements w - int (length (elements rsh)),
               resolve_log := resolve_log w @ map symbolic_color [] @ [symbolic_color e]\<rparr>)"
    by (rule arg_cong[OF eq])
  finally show ?case .
next
  case (Cons x pre)
  from Cons.prems obtain c where c: "R (symbolic_color x) props = Some c" by auto
  let ?rsh1 = "rsh\<lparr>elements := elements rsh @ [concrete_copy c x]\<rparr>"
  let ?w1 = "w\<lparr>resolve_log := resolve_log w @ [symbolic_color x],
               live_elements := live_elements w + 1,
               shadows := (shadows w)(rs \<mapsto> ?rsh1)\<rparr>"
  have step: "resolve_elements R props rs ((x # pre) @ e # post) w =
              resolve_elements R props rs (pre @ e # post) ?w1"
    unfolding append_Cons
    by (rule resolve_elements_Cons_Some[where R = R and props = props and e = x, OF Cons.prems(1) c])
  have a: "shadows ?w1 rs = Some ?rsh1" by simp
  have b: "ref_count ?rsh1 = 1" using Cons.prems(2) by simp
  have d: "\<forall>e\<in>set (elements ?rsh1). symbolic_color e = None"
    using Cons.prems(3) by (simp add: concrete_copy_def)
  have f: "\<forall>x\<in>set pre. R (symbolic_color x) props \<noteq> None" using Cons.prems(4) by simp
  have eq: "?w1\<lparr>shadows := (shadows ?w1)(rs := None),
            live_elements := live_elements ?w1 - int (length (elements ?rsh1)),
            resolve_log := resolve_log ?w1 @ map symbolic_color pre @ [symbolic_color e]\<rparr>
       = w\<lparr>shadows := (shadows w)(rs := None),
            live_elements := live_elements w - int (length (elements rsh)),
            resolve_log := resolve_log w @ map symbolic_color (x # pre) @ [symbolic_color e]\<rparr>"
    by (rule world.equality) simp_all
  show ?case
    unfolding step Cons.IH[OF a b d f] eq ..
qed

section \<open>Resolution of a list\<close>

lemma allocator_ok_fresh: "allocator_ok w \<Longrightarrow> shadows w (next_addr w) = None"
  by (simp add: allocator_ok_def)

lemma gtk_shadow_resolve_resolved:
  assumes "shadows w p = Some sh" and "resolved sh"
  shows "gtk_shadow_resolve R (Some p) props w =
           Inr (Some p, w\<lparr>shadows := (shadows w)(p \<mapsto> sh\<lparr>ref_count := ref_count sh + 1\<rparr>)\<rparr>)"
  using assms by (simp add: gtk_shadow_resolve_def gtk_shadow_ref_def)

lemma gtk_shadow_resolve_unresolved:
  assumes "shadows w p = Some sh" and "\<not> resolved sh" and "shadows w (next_addr w) = None"
  shows "gtk_shadow_resolve R (Some p) props w =
         resolve_elements R props (next_addr w) (elements sh)
           (w\<lparr>shadows := (shadows w)(next_addr w \<mapsto> \<lparr>elements = [], ref_count = 1, resolved = False\<rparr>),
              next_addr := Suc (next_addr w)\<rparr>)"
proof -
  from assms have "p \<noteq> next_addr w" by auto
  with assms show ?thesis
    by (simp add: gtk_shadow_resolve_def gtk_shadow_new_def Let_def)
qed

lemma gtk_shadow_resolve_success:
  assumes "shadows w p = Some sh" and "\<not> resolved sh" and "shadows w (next_addr w) = None"
    and "\<forall>e\<in>set (elements sh). R (symbolic_color e) props \<noteq> None"
  shows "gtk_shadow_resolve R (Some p) props w =
         Inr (Some (next_addr w),
              w\<lparr>shadows := (shadows w)(next_addr w \<mapsto>
                     \<lparr>elements = map (resolved_copy R props) (elements sh), ref_count = 1,
                      resolved = True\<rparr>),
                next_addr := Suc (next_addr w),
                live_elements := live_elements w + int (length (elements sh)),
                resolve_log := resolve_log w @ map symbolic_color (elements sh)\<rparr>)"
proof -
  let ?q = "next_addr w"
  let ?new = "\<lparr>elements = [], ref_count = 1, resolved = False\<rparr>"
  let ?w1 = "w\<lparr>shadows := (shadows w)(?q \<mapsto> ?new), next_addr := Suc ?q\<rparr>"
  have a: "shadows ?w1 ?q = Some ?new" by simp
  have eq: "?w1\<lparr>shadows := (shadows ?w1)(?q \<mapsto>
                 ?new\<lparr>elements := elements ?new @ map (resolved_copy R props) (elements sh),
                       resolved := True\<rparr>),
            live_elements := live_elements ?w1 + int (length (elements sh)),
            resolve_log := resolve_log ?w1 @ map symbolic_color (elements sh)\<rparr>
        = w\<lparr>shadows := (shadows w)(?q \<mapsto>
                     \<lparr>elements = map (resolved_copy R props) (elements sh), ref_count = 1,
                      resolved = True\<rparr>),
                next_addr := Suc ?q,
                live_elements := live_elements w + int (length (elements sh)),
                resolve_log := resolve_log w @ map symbolic_color (elements sh)\<rparr>"
    by (rule world.equality) simp_all
  show ?thesis
    unfolding gtk_shadow_resolve_unresolved[OF assms(1-3)]
      resolve_elements_success[where R = R and props = props, OF a assms(4)] eq ..
qed

lemma gtk_shadow_resolve_failure:
  assumes "shadows w p = Some sh" and "\<not> resolved sh" and "shadows w (next_addr w) = None"
    and "elements sh = pre @ e # post"
    and "\<forall>x\<in>set pre. R (symbolic_color x) props \<noteq> None"
    and "R (symbolic_color e) props = None"
  shows "gtk_shadow_resolve R (Some p) props w =
         Inr (None,
              w\<lparr>next_addr := Suc (next_addr w),
                resolve_log := resolve_log w @ map symbolic_color pre @ [symbolic_color e]\<rparr>)"
proof -
  let ?q = "next_addr w"
  let ?new = "\<lparr>elements = [], ref_count = 1, resolved = False\<rparr>"
  let ?w1 = "w\<lparr>shadows := (shadows w)(?q \<mapsto> ?new), next_addr := Suc ?q\<rparr>"
  have a: "shadows ?w1 ?q = Some ?new" by simp
  have b: "ref_count ?new = 1" by simp
  have c: "\<forall>e\<in>set (elements ?new). symbolic_color e = None" by simp
  have eq: "?w1\<lparr>shadows := (shadows ?w1)(?q := None),
            live_elements := live_elements ?w1 - int (length (elements ?new)),
            resolve_log := resolve_log ?w1 @ map symbolic_color pre @ [symbolic_color e]\<rparr>
        = w\<lparr>next_addr := Suc ?q,
                resolve_log := resolve_log w @ map symbolic_color pre @ [symbolic_color e]\<rparr>"
    using assms(3) by (intro world.equality) (simp_all add: fun_upd_idem)
  show ?thesis
    unfolding gtk_shadow_resolve_unresolved[OF assms(1-3)] assms(4)
      resolve_elements_failure[where R = R and props = props and e = e, OF a b c assms(5,6)] eq ..
qed

lemma allocator_ok_two_layer_world: "allocator_ok two_layer_world"
  by (simp add: allocator_ok_def two_layer_world_def)

lemma shadows_two_layer_world: "shadows two_layer_world 1 = Some two_layers"
  by (simp add: two_layer_world_def)

text \<open>
  C2.  Resolving a list whose resolved flag is set returns the pointer it was given.  The
  world changes in one place only: the reference count of that list is one more.  No list
  is allocated, no element is built and the resolver is not called.
\<close>

theorem resolve_resolved_same_instance:
  assumes "shadows w p = Some sh" and "resolved sh"
  shows "gtk_shadow_resolve R (Some p) props w =
           Inr (Some p, w\<lparr>shadows := (shadows w)(p \<mapsto> sh\<lparr>ref_count := ref_count sh + 1\<rparr>)\<rparr>)"
  using assms by (rule gtk_shadow_resolve_resolved)

theorem resolve_resolved_same_instance_witness:
  "gtk_shadow_resolve resolve_7 (Some 1) None resolved_world =
     Inr (Some 1,
          resolved_world\<lparr>shadows := (shadows resolved_world)
            (1 \<mapsto> resolved_layers\<lparr>ref_count := ref_count resolved_layers + 1\<rparr>)\<rparr>)
   \<and> ref_count (resolved_layers\<lparr>ref_count := ref_count resolved_layers + 1\<rparr>) = 2"
proof
  show "gtk_shadow_resolve resolve_7 (Some 1) None resolved_world =
     Inr (Some 1,
          resolved_world\<lparr>shadows := (shadows resolved_world)
            (1 \<mapsto> resolved_layers\<lparr>ref_count := ref_count resolved_layers + 1\<rparr>)\<rparr>)"
  proof (rule resolve_resolved_same_instance)
    show "shadows resolved_world 1 = Some resolved_layers" by (simp add: resolved_world_def)
    show "resolved resolved_layers" by (simp add: resolved_layers_def)
  qed
  show "ref_count (resolved_layers\<lparr>ref_count := ref_count resolved_layers + 1\<rparr>) = 2"
    by (simp add: resolved_layers_def)
qed

text \<open>
  C1.  When the resolver fails on some element of an unresolved list, the list splits at
  the first such element, and resolve returns \<^verbatim>\<open>NULL\<close>.  The store of lists is as it was before
  the call, so the partly built output list is gone and nothing of it can be observed; the
  number of live elements is as before, so its elements are freed; and the resolver was
  called on the elements up to the failing one and on none after it.
\<close>

theorem resolve_fails_fast:
  assumes "allocator_ok w"
    and "shadows w p = Some sh" and "\<not> resolved sh"
    and "\<exists>x\<in>set (elements sh). R (symbolic_color x) props = None"
  shows "\<exists>pre e post.
           elements sh = pre @ e # post
         \<and> (\<forall>x\<in>set pre. R (symbolic_color x) props \<noteq> None)
         \<and> R (symbolic_color e) props = None
         \<and> gtk_shadow_resolve R (Some p) props w =
             Inr (None,
                  w\<lparr>next_addr := Suc (next_addr w),
                    resolve_log := resolve_log w @ map symbolic_color pre @ [symbolic_color e]\<rparr>)"
proof -
  from assms(4) obtain pre e post where split: "elements sh = pre @ e # post"
    and e: "R (symbolic_color e) props = None"
    and pre: "\<forall>x\<in>set pre. R (symbolic_color x) props \<noteq> None"
    by (auto dest!: split_list_first_prop)
  have fresh: "shadows w (next_addr w) = None" using assms(1) by (rule allocator_ok_fresh)
  have "gtk_shadow_resolve R (Some p) props w =
             Inr (None,
                  w\<lparr>next_addr := Suc (next_addr w),
                    resolve_log := resolve_log w @ map symbolic_color pre @ [symbolic_color e]\<rparr>)"
    using assms(2,3) fresh split pre e by (rule gtk_shadow_resolve_failure)
  with split pre e show ?thesis by blast
qed

theorem resolve_fails_fast_witness:
  "gtk_shadow_resolve resolve_7 (Some 1) None two_layer_world =
     Inr (None,
          two_layer_world\<lparr>next_addr := Suc (next_addr two_layer_world),
            resolve_log := resolve_log two_layer_world @ map symbolic_color [layer_a]
                             @ [symbolic_color layer_b]\<rparr>)"
proof -
  have ok: "allocator_ok two_layer_world" by (rule allocator_ok_two_layer_world)
  have sh: "shadows two_layer_world 1 = Some two_layers" by (rule shadows_two_layer_world)
  have unres: "\<not> resolved two_layers" by (simp add: two_layers_def)
  have a: "resolve_7 (symbolic_color layer_a) None \<noteq> None"
    by (simp add: layer_a_def resolve_7_def)
  have b: "resolve_7 (symbolic_color layer_b) None = None"
    by (simp add: layer_b_def resolve_7_def)
  have some: "\<exists>x\<in>set (elements two_layers). resolve_7 (symbolic_color x) None = None"
    using b by (simp add: two_layers_def)
  from resolve_fails_fast[where R = resolve_7 and props = None, OF ok sh unres some]
  obtain pre e post where split: "elements two_layers = pre @ e # post"
    and pre: "\<forall>x\<in>set pre. resolve_7 (symbolic_color x) None \<noteq> None"
    and e: "resolve_7 (symbolic_color e) None = None"
    and run: "gtk_shadow_resolve resolve_7 (Some 1) None two_layer_world =
             Inr (None,
                  two_layer_world\<lparr>next_addr := Suc (next_addr two_layer_world),
                    resolve_log := resolve_log two_layer_world @ map symbolic_color pre
                                     @ [symbolic_color e]\<rparr>)"
    by blast
  from split have two: "[layer_a, layer_b] = pre @ e # post" by (simp add: two_layers_def)
  have "pre = [layer_a] \<and> e = layer_b"
  proof (cases pre)
    case Nil
    with two have "e = layer_a" by simp
    with e a show ?thesis by simp
  next
    case (Cons x pre')
    with two have x: "x = layer_a" and rest: "[layer_b] = pre' @ e # post" by simp_all
    show ?thesis
    proof (cases pre')
      case Nil
      with rest Cons x show ?thesis by simp
    next
      case (Cons y pre'')
      with rest have "y = layer_b" by simp
      with Cons \<open>pre = x # pre'\<close> pre b show ?thesis by simp
    qed
  qed
  with run show ?thesis by simp
qed

text \<open>
  C6.  When the resolver succeeds on every element of an unresolved list, resolve returns
  the address of a list that did not exist before, built by \<^verbatim>\<open>_gtk_shadow_new\<close> (empty,
  reference count 1).  On return its reference count is 1, its resolved flag is set, it
  is as long as the source, and its \<open>i\<close>-th element carries the resolver's colour for the
  \<open>i\<close>-th source element, the same offsets, radius, spread and inset flag, and no
  symbolic colour.
\<close>

theorem resolve_success_postcondition:
  assumes "allocator_ok w"
    and "shadows w p = Some sh" and "\<not> resolved sh"
    and "\<forall>e\<in>set (elements sh). R (symbolic_color e) props \<noteq> None"
  shows "\<exists>w' rsh.
           gtk_shadow_resolve R (Some p) props w = Inr (Some (next_addr w), w')
         \<and> shadows w (next_addr w) = None
         \<and> gtk_shadow_new w =
             (next_addr w,
              w\<lparr>shadows := (shadows w)(next_addr w \<mapsto> \<lparr>elements = [], ref_count = 1, resolved = False\<rparr>),
                next_addr := Suc (next_addr w)\<rparr>)
         \<and> shadows w' (next_addr w) = Some rsh
         \<and> ref_count rsh = 1
         \<and> resolved rsh
         \<and> length (elements rsh) = length (elements sh)
         \<and> (\<forall>i<length (elements sh).
               R (symbolic_color (elements sh ! i)) props = Some (color (elements rsh ! i))
             \<and> hoffset (elements rsh ! i) = hoffset (elements sh ! i)
             \<and> voffset (elements rsh ! i) = voffset (elements sh ! i)
             \<and> radius (elements rsh ! i) = radius (elements sh ! i)
             \<and> spread (elements rsh ! i) = spread (elements sh ! i)
             \<and> inset (elements rsh ! i) = inset (elements sh ! i)
             \<and> symbolic_color (elements rsh ! i) = None)"
proof -
  let ?rsh = "\<lparr>elements = map (resolved_copy R props) (elements sh), ref_count = 1,
               resolved = True\<rparr>"
  let ?w' = "w\<lparr>shadows := (shadows w)(next_addr w \<mapsto> ?rsh),
               next_addr := Suc (next_addr w),
               live_elements := live_elements w + int (length (elements sh)),
               resolve_log := resolve_log w @ map symbolic_color (elements sh)\<rparr>"
  have fresh: "shadows w (next_addr w) = None" using assms(1) by (rule allocator_ok_fresh)
  have run: "gtk_shadow_resolve R (Some p) props w = Inr (Some (next_addr w), ?w')"
    using assms(2,3) fresh assms(4) by (rule gtk_shadow_resolve_success)
  have new: "gtk_shadow_new w =
             (next_addr w,
              w\<lparr>shadows := (shadows w)(next_addr w \<mapsto> \<lparr>elements = [], ref_count = 1, resolved = False\<rparr>),
                next_addr := Suc (next_addr w)\<rparr>)"
    by (simp add: gtk_shadow_new_def Let_def)
  have stored: "shadows ?w' (next_addr w) = Some ?rsh" by simp
  have fields: "R (symbolic_color (elements sh ! i)) props = Some (color (elements ?rsh ! i))
             \<and> hoffset (elements ?rsh ! i) = hoffset (elements sh ! i)
             \<and> voffset (elements ?rsh ! i) = voffset (elements sh ! i)
             \<and> radius (elements ?rsh ! i) = radius (elements sh ! i)
             \<and> spread (elements ?rsh ! i) = spread (elements sh ! i)
             \<and> inset (elements ?rsh ! i) = inset (elements sh ! i)
             \<and> symbolic_color (elements ?rsh ! i) = None"
    if "i < length (elements sh)" for i
  proof -
    from that assms(4) have "R (symbolic_color (elements sh ! i)) props \<noteq> None" by simp
    from resolved_copy_fields[where R = R and props = props, OF this] that show ?thesis by simp
  qed
  show ?thesis
    apply (rule exI[of _ ?w'])
    apply (rule exI[of _ ?rsh])
    using run fresh new stored fields by simp
qed

theorem resolve_success_postcondition_witness:
  "\<exists>w' rsh.
     gtk_shadow_resolve resolve_any (Some 1) None two_layer_world = Inr (Some 2, w')
   \<and> shadows two_layer_world 2 = None
   \<and> shadows w' 2 = Some rsh
   \<and> ref_count rsh = 1
   \<and> resolved rsh
   \<and> length (elements rsh) = 2
   \<and> color (elements rsh ! 1) = opaque_black
   \<and> hoffset (elements rsh ! 1) = - 1
   \<and> voffset (elements rsh ! 1) = 3
   \<and> radius (elements rsh ! 1) = - 4
   \<and> spread (elements rsh ! 1) = 5
   \<and> inset (elements rsh ! 1)
   \<and> symbolic_color (elements rsh ! 1) = None"
proof -
  have ok: "allocator_ok two_layer_world" by (rule allocator_ok_two_layer_world)
  have sh: "shadows two_layer_world 1 = Some two_layers" by (rule shadows_two_layer_world)
  have unres: "\<not> resolved two_layers" by (simp add: two_layers_def)
  have all: "\<forall>e\<in>set (elements two_layers). resolve_any (symbolic_color e) None \<noteq> None"
    by (simp add: resolve_any_def)
  have nxt: "next_addr two_layer_world = 2" by (simp add: two_layer_world_def)
  have els: "elements two_layers = [layer_a, layer_b]" by (simp add: two_layers_def)
  from resolve_success_postcondition[where R = resolve_any and props = None, OF ok sh unres all]
  obtain w' rsh where
    "gtk_shadow_resolve resolve_any (Some 1) None two_layer_world = Inr (Some 2, w')"
    "shadows two_layer_world 2 = None"
    "shadows w' 2 = Some rsh" "ref_count rsh = 1" "resolved rsh"
    "length (elements rsh) = 2"
    and fields: "\<forall>i<2.
               resolve_any (symbolic_color ([layer_a, layer_b] ! i)) None = Some (color (elements rsh ! i))
             \<and> hoffset (elements rsh ! i) = hoffset ([layer_a, layer_b] ! i)
             \<and> voffset (elements rsh ! i) = voffset ([layer_a, layer_b] ! i)
             \<and> radius (elements rsh ! i) = radius ([layer_a, layer_b] ! i)
             \<and> spread (elements rsh ! i) = spread ([layer_a, layer_b] ! i)
             \<and> inset (elements rsh ! i) = inset ([layer_a, layer_b] ! i)
             \<and> symbolic_color (elements rsh ! i) = None"
    unfolding nxt els by auto
  moreover from fields have "(1::nat) < 2 \<longrightarrow>
               resolve_any (symbolic_color ([layer_a, layer_b] ! 1)) None = Some (color (elements rsh ! 1))
             \<and> hoffset (elements rsh ! 1) = hoffset ([layer_a, layer_b] ! 1)
             \<and> voffset (elements rsh ! 1) = voffset ([layer_a, layer_b] ! 1)
             \<and> radius (elements rsh ! 1) = radius ([layer_a, layer_b] ! 1)
             \<and> spread (elements rsh ! 1) = spread ([layer_a, layer_b] ! 1)
             \<and> inset (elements rsh ! 1) = inset ([layer_a, layer_b] ! 1)
             \<and> symbolic_color (elements rsh ! 1) = None"
    by (rule spec)
  then have "color (elements rsh ! 1) = opaque_black \<and> hoffset (elements rsh ! 1) = - 1
     \<and> voffset (elements rsh ! 1) = 3 \<and> radius (elements rsh ! 1) = - 4
     \<and> spread (elements rsh ! 1) = 5 \<and> inset (elements rsh ! 1)
     \<and> symbolic_color (elements rsh ! 1) = None"
    by (simp add: layer_b_def resolve_any_def)
  ultimately show ?thesis by blast
qed

text \<open>
  C7.  Resolve returns on every list of a well-formed store, and afterwards the source
  list has the elements and the resolved flag it had before, whether resolution succeeded
  or failed; when it failed the whole store of lists is unchanged.
\<close>

theorem resolve_leaves_source_unchanged:
  assumes "allocator_ok w" and "shadows w p = Some sh"
  shows "\<exists>r w' sh'.
           gtk_shadow_resolve R (Some p) props w = Inr (r, w')
         \<and> shadows w' p = Some sh'
         \<and> elements sh' = elements sh
         \<and> resolved sh' = resolved sh
         \<and> (r = None \<longrightarrow> shadows w' = shadows w)"
proof -
  have fresh: "shadows w (next_addr w) = None" using assms(1) by (rule allocator_ok_fresh)
  with assms(2) have neq: "p \<noteq> next_addr w" by auto
  show ?thesis
  proof (cases "resolved sh")
    case True
    from gtk_shadow_resolve_resolved[OF assms(2) True, of R props] show ?thesis by simp
  next
    case False
    show ?thesis
    proof (cases "\<forall>e\<in>set (elements sh). R (symbolic_color e) props \<noteq> None")
      case True
      from gtk_shadow_resolve_success[where R = R and props = props, OF assms(2) False fresh True] assms(2) neq
      show ?thesis by simp
    next
      case False
      then have "\<exists>e\<in>set (elements sh). R (symbolic_color e) props = None" by simp
      then obtain pre e post where split: "elements sh = pre @ e # post"
        and e: "R (symbolic_color e) props = None"
        and pre: "\<forall>x\<in>set pre. R (symbolic_color x) props \<noteq> None"
        by (auto dest!: split_list_first_prop)
      from gtk_shadow_resolve_failure[where R = R and props = props, OF assms(2) \<open>\<not> resolved sh\<close> fresh split pre e] assms(2)
      show ?thesis by simp
    qed
  qed
qed

theorem resolve_leaves_source_unchanged_witness:
  "\<exists>r w' sh'.
     gtk_shadow_resolve resolve_7 (Some 1) None two_layer_world = Inr (r, w')
   \<and> shadows w' 1 = Some sh'
   \<and> elements sh' = [layer_a, layer_b]
   \<and> \<not> resolved sh'"
proof -
  have ok: "allocator_ok two_layer_world" by (rule allocator_ok_two_layer_world)
  have sh: "shadows two_layer_world 1 = Some two_layers" by (rule shadows_two_layer_world)
  from resolve_leaves_source_unchanged[where R = resolve_7 and props = None, OF ok sh]
  show ?thesis by (auto simp: two_layers_def)
qed

section \<open>The text of a list\<close>

lemma to_string_rest_concat:
  "to_string_rest f l str = str @ concat (map (\<lambda>e. '', '' @ f e) l)"
  by (induction l arbitrary: str) simp_all

lemma join_with_Cons:
  "join_with sep (x # xs) = x @ concat (map (\<lambda>y. sep @ y) xs)"
  by (induction xs arbitrary: x) simp_all

text \<open>
  C8.  On a list with no element \<^verbatim>\<open>_gtk_shadow_to_string\<close> returns \<^verbatim>\<open>NULL\<close>, not the empty
  string.  On any other list it returns the texts of the elements, in list order, joined
  by a comma and a space; for a single element that is the element's text.  List order is
  append order: \<^verbatim>\<open>_gtk_shadow_append\<close> puts the new element at the end.
\<close>

theorem to_string_joins_in_order:
  assumes "shadows w p = Some sh"
  shows "gtk_shadow_to_string sym_text rgba_text (Some p) w =
           Inr (if elements sh = [] then None
                else Some (join_with '', ''
                             (map (shadow_element_to_string sym_text rgba_text) (elements sh))))"
proof (cases "elements sh")
  case Nil
  with assms show ?thesis by (simp add: gtk_shadow_to_string_def)
next
  case (Cons e l)
  with assms show ?thesis
    by (cases l)
       (simp_all add: gtk_shadow_to_string_def to_string_rest_concat join_with_Cons Let_def comp_def)
qed

theorem to_string_joins_in_order_witness:
  "gtk_shadow_to_string color_name rgba_name (Some 1) two_layer_world =
     Inr (Some ''2 2 @fg, inset -1 3 -4 5 @bg'')
   \<and> gtk_shadow_to_string color_name rgba_name (Some 1)
       (two_layer_world\<lparr>shadows := [1 \<mapsto> two_layers\<lparr>elements := []\<rparr>]\<rparr>) = Inr None"
proof -
  have a: "shadow_element_to_string color_name rgba_name layer_a = ''2 2 @fg''"
    by code_simp
  have b: "shadow_element_to_string color_name rgba_name layer_b = ''inset -1 3 -4 5 @bg''"
    by code_simp
  have "gtk_shadow_to_string color_name rgba_name (Some 1) two_layer_world =
     Inr (Some ''2 2 @fg, inset -1 3 -4 5 @bg'')"
    using to_string_joins_in_order[OF shadows_two_layer_world, of color_name rgba_name]
    by (simp add: two_layers_def a b)
  moreover have "gtk_shadow_to_string color_name rgba_name (Some 1)
       (two_layer_world\<lparr>shadows := [1 \<mapsto> two_layers\<lparr>elements := []\<rparr>]\<rparr>) = Inr None"
    using to_string_joins_in_order[of "two_layer_world\<lparr>shadows := [1 \<mapsto> two_layers\<lparr>elements := []\<rparr>]\<rparr>"
                                      1 "two_layers\<lparr>elements := []\<rparr>" color_name rgba_name]
    by simp
  ultimately show ?thesis by simp
qed

section \<open>The calls of the painter\<close>

lemma paint_element_calls:
  "paint_element layout e cr = cr\<lparr>calls := calls cr @ layer_calls layout e\<rparr>"
  by (simp add: paint_element_def layer_calls_def cairo_save_def cairo_rel_move_to_def
      gdk_cairo_set_source_rgba_def gtk_pango_fill_layout_def cairo_restore_def)

lemma paint_from_last_Nil: "paint_from_last layout [] cr = cr"
  by (simp add: paint_from_last.simps)

lemma paint_from_last_snoc:
  "paint_from_last layout (l @ [e]) cr = paint_from_last layout l (paint_element layout e cr)"
  by (subst paint_from_last.simps) simp

lemma paint_from_last_calls:
  "paint_from_last layout l cr = cr\<lparr>calls := calls cr @ concat (map (layer_calls layout) (rev l))\<rparr>"
proof (induction l arbitrary: cr rule: rev_induct)
  case Nil
  show ?case by (simp add: paint_from_last_Nil)
next
  case (snoc e l)
  show ?case
    by (simp add: paint_from_last_snoc snoc.IH paint_element_calls)
qed

lemma fills_of_layers:
  "length (filter (\<lambda>c. c = Fill_layout layout) (concat (map (layer_calls layout) l))) = length l"
  by (induction l) (simp_all add: layer_calls_def)

text \<open>
  C3.  Painting a list makes these calls on the drawing context, and no others: a move to
  the origin when the context has no current point; then, for the elements taken from the
  last appended to the first, a save, a relative move by the element's offsets, the
  element's colour as the source, the fill of the layout, a relative move by the negated
  offsets, and a restore.  There are as many fills as elements, and the world, with the
  list in it, is returned as it was.
\<close>

theorem paint_layout_order:
  assumes "shadows w p = Some sh"
  shows "gtk_text_shadow_paint_layout (Some p) cr layout w =
           Inr (cr\<lparr>has_current_point := True,
                  calls := calls cr
                    @ (if has_current_point cr then [] else [Move_to 0 0])
                    @ concat (map (layer_calls layout) (rev (elements sh)))\<rparr>,
                w)
       \<and> length (filter (\<lambda>c. c = Fill_layout layout)
                   (concat (map (layer_calls layout) (rev (elements sh)))))
         = length (elements sh)"
  using assms
  by (simp add: gtk_text_shadow_paint_layout_def paint_from_last_calls cairo_move_to_def
      fills_of_layers)

theorem paint_layout_order_witness:
  "gtk_text_shadow_paint_layout (Some 1) \<lparr>has_current_point = False, calls = []\<rparr> 9 two_layer_world =
     Inr (\<lparr>has_current_point = True,
           calls = [Move_to 0 0,
                    Save, Rel_move_to (- 1) 3, Set_source_rgba rgba_zero, Fill_layout 9,
                    Rel_move_to 1 (- 3), Restore,
                    Save, Rel_move_to 2 2, Set_source_rgba rgba_zero, Fill_layout 9,
                    Rel_move_to (- 2) (- 2), Restore]\<rparr>,
          two_layer_world)"
  using paint_layout_order[OF shadows_two_layer_world,
      of "\<lparr>has_current_point = False, calls = []\<rparr>" 9]
  by (simp add: two_layers_def layer_calls_def layer_a_def layer_b_def)

section \<open>Numeric arguments of construction and append\<close>

lemma shadow_element_new_Inr:
  assumes "shadow_element_new h v r s ins col symb w = Inr (e, w')"
  shows "symbolic_color e = symb" and "inset e = ins"
    and "shadows w' = shadows w" and "next_addr w' = next_addr w"
  using assms
  by (auto simp: shadow_element_new_def Let_def gtk_symbolic_color_ref_def
      split: sum.splits option.splits)

lemma gtk_shadow_append_Inr:
  assumes "gtk_shadow_append (Some p) h v r s ins (Some sc) w = Inr w'"
  shows "\<exists>sh e. shadows w p = Some sh \<and> symbolic_color e = Some sc
           \<and> shadows w' = (shadows w)(p \<mapsto> sh\<lparr>elements := elements sh @ [e]\<rparr>)
           \<and> next_addr w' = next_addr w"
proof -
  from assms obtain e w1 where new: "shadow_element_new h v r s ins None (Some sc) w = Inr (e, w1)"
    by (auto simp: gtk_shadow_append_def split: sum.splits)
  note facts = shadow_element_new_Inr[OF new]
  from assms new obtain sh where sh: "shadows w1 p = Some sh"
    and w': "w' = w1\<lparr>shadows := (shadows w1)(p \<mapsto> sh\<lparr>elements := elements sh @ [e]\<rparr>)\<rparr>"
    by (auto simp: gtk_shadow_append_def split: option.splits)
  from sh w' facts show ?thesis by auto
qed

lemma sint_gint16_eq_0: "(sint (x::gint16) = 0) = (x = 0)"
  by (rule signed_eq_0_iff)

lemma shadow_element_new_in_range:
  assumes "fits_gint16 h" and "fits_gint16 v" and "fits_gint16 r" and "fits_gint16 s"
  shows "\<exists>e. shadow_element_new h v r s ins col symb w =
               Inr (e, (case symb of Some sc \<Rightarrow> gtk_symbolic_color_ref sc | None \<Rightarrow> id)
                         (w\<lparr>live_elements := live_elements w + 1\<rparr>))
         \<and> stores_truncated h v r s e
         \<and> inset e = ins
         \<and> symbolic_color e = symb
         \<and> color e = (case col of Some c \<Rightarrow> c | None \<Rightarrow> rgba_zero)"
proof -
  from assms(1) obtain h' where
    h: "gdouble_to_gint16 h = Inr h'" "sint h' = trunc_toward_zero h"
    using gdouble_to_gint16_in_range[of h] by (auto simp: fits_gint16_def)
  from assms(2) obtain v' where
    v: "gdouble_to_gint16 v = Inr v'" "sint v' = trunc_toward_zero v"
    using gdouble_to_gint16_in_range[of v] by (auto simp: fits_gint16_def)
  from assms(3) obtain r' where
    r: "gdouble_to_gint16 r = Inr r'" "sint r' = trunc_toward_zero r"
    using gdouble_to_gint16_in_range[of r] by (auto simp: fits_gint16_def)
  from assms(4) obtain s' where
    s: "gdouble_to_gint16 s = Inr s'" "sint s' = trunc_toward_zero s"
    using gdouble_to_gint16_in_range[of s] by (auto simp: fits_gint16_def)
  show ?thesis
    by (cases symb; cases col)
       (simp_all add: shadow_element_new_def Let_def h v r s stores_truncated_def)
qed

lemma stores_truncated_text:
  assumes "stores_truncated h v r s e"
  shows "shadow_element_to_string sym_text rgba_text e =
           (if inset e then ''inset '' else [])
           @ printf_d (trunc_toward_zero h) @ '' '' @ printf_d (trunc_toward_zero v) @ '' ''
           @ (if trunc_toward_zero r \<noteq> 0 then printf_d (trunc_toward_zero r) @ '' '' else [])
           @ (if trunc_toward_zero s \<noteq> 0 then printf_d (trunc_toward_zero s) @ '' '' else [])
           @ (case symbolic_color e of Some sc \<Rightarrow> sym_text sc | None \<Rightarrow> rgba_text (color e))"
proof -
  from assms have "(radius e \<noteq> 0) = (trunc_toward_zero r \<noteq> 0)"
    and "(spread e \<noteq> 0) = (trunc_toward_zero s \<noteq> 0)"
    by (simp_all add: stores_truncated_def sint_gint16_eq_0[symmetric])
  with assms show ?thesis
    by (simp add: shadow_element_to_string_def stores_truncated_def)
qed

text \<open>
  C4, as amended.  Construction and append validate no range.  Each of the four doubles
  is converted to a 16-bit field by truncation toward zero, and when the four truncations
  fit in 16 bits the call succeeds and the element stores them: an integral value, a
  negative radius included, is stored as supplied, and of a fractional value the integral
  part is stored.  Serialization prints the stored integers, and append puts that element
  at the end of the list.
\<close>

theorem numeric_fields_stored_truncated:
  assumes "fits_gint16 h" and "fits_gint16 v" and "fits_gint16 r" and "fits_gint16 s"
  shows "\<exists>e w'. shadow_element_new h v r s ins col symb w = Inr (e, w')
         \<and> stores_truncated h v r s e
         \<and> shadow_element_to_string sym_text rgba_text e =
             (if ins then ''inset '' else [])
             @ printf_d (trunc_toward_zero h) @ '' '' @ printf_d (trunc_toward_zero v) @ '' ''
             @ (if trunc_toward_zero r \<noteq> 0 then printf_d (trunc_toward_zero r) @ '' '' else [])
             @ (if trunc_toward_zero s \<noteq> 0 then printf_d (trunc_toward_zero s) @ '' '' else [])
             @ (case symb of
                  Some sc \<Rightarrow> sym_text sc
                | None \<Rightarrow> rgba_text (case col of Some c \<Rightarrow> c | None \<Rightarrow> rgba_zero))
         \<and> (\<forall>p sh sc. shadows w p = Some sh \<longrightarrow>
               (\<exists>e' w''. gtk_shadow_append (Some p) h v r s ins (Some sc) w = Inr w''
                  \<and> shadows w'' p = Some (sh\<lparr>elements := elements sh @ [e']\<rparr>)
                  \<and> stores_truncated h v r s e'
                  \<and> symbolic_color e' = Some sc))"
proof -
  from shadow_element_new_in_range[OF assms, of ins col symb w]
  obtain e where e: "shadow_element_new h v r s ins col symb w =
               Inr (e, (case symb of Some sc \<Rightarrow> gtk_symbolic_color_ref sc | None \<Rightarrow> id)
                         (w\<lparr>live_elements := live_elements w + 1\<rparr>))"
    "stores_truncated h v r s e" "inset e = ins" "symbolic_color e = symb"
    "color e = (case col of Some c \<Rightarrow> c | None \<Rightarrow> rgba_zero)"
    by blast
  have app: "\<exists>e' w''. gtk_shadow_append (Some p) h v r s ins (Some sc) w = Inr w''
                  \<and> shadows w'' p = Some (sh\<lparr>elements := elements sh @ [e']\<rparr>)
                  \<and> stores_truncated h v r s e'
                  \<and> symbolic_color e' = Some sc"
    if "shadows w p = Some sh" for p sh sc
  proof -
    from shadow_element_new_in_range[OF assms, of ins None "Some sc" w]
    obtain e' where e': "shadow_element_new h v r s ins None (Some sc) w =
               Inr (e', gtk_symbolic_color_ref sc (w\<lparr>live_elements := live_elements w + 1\<rparr>))"
      "stores_truncated h v r s e'" "symbolic_color e' = Some sc"
      by auto
    let ?w'' = "(gtk_symbolic_color_ref sc (w\<lparr>live_elements := live_elements w + 1\<rparr>))
                 \<lparr>shadows := (shadows w)(p \<mapsto> sh\<lparr>elements := elements sh @ [e']\<rparr>)\<rparr>"
    from that e'(1) have "gtk_shadow_append (Some p) h v r s ins (Some sc) w = Inr ?w''"
      by (simp add: gtk_shadow_append_def gtk_symbolic_color_ref_def)
    moreover have "shadows ?w'' p = Some (sh\<lparr>elements := elements sh @ [e']\<rparr>)" by simp
    ultimately show ?thesis using e'(2,3) by blast
  qed
  have printed: "shadow_element_to_string sym_text rgba_text e =
             (if ins then ''inset '' else [])
             @ printf_d (trunc_toward_zero h) @ '' '' @ printf_d (trunc_toward_zero v) @ '' ''
             @ (if trunc_toward_zero r \<noteq> 0 then printf_d (trunc_toward_zero r) @ '' '' else [])
             @ (if trunc_toward_zero s \<noteq> 0 then printf_d (trunc_toward_zero s) @ '' '' else [])
             @ (case symb of
                  Some sc \<Rightarrow> sym_text sc
                | None \<Rightarrow> rgba_text (case col of Some c \<Rightarrow> c | None \<Rightarrow> rgba_zero))"
    unfolding stores_truncated_text[OF e(2)] e(3,4,5) ..
  show ?thesis
    apply (rule exI[of _ e])
    apply (rule exI[of _ "(case symb of Some sc \<Rightarrow> gtk_symbolic_color_ref sc | None \<Rightarrow> id)
                         (w\<lparr>live_elements := live_elements w + 1\<rparr>)"])
    apply (intro conjI)
       apply (rule e(1))
      apply (rule e(2))
     apply (rule printed)
    apply (intro allI impI)
    apply (erule app)
    done
qed

theorem numeric_fields_stored_truncated_witness:
  "\<exists>e w'. shadow_element_new (- (5 / 2)) (7 / 2) (- 3) 0 True None (Some 7) empty_world = Inr (e, w')
     \<and> sint (hoffset e) = - 2 \<and> sint (voffset e) = 3 \<and> sint (radius e) = - 3
     \<and> sint (spread e) = 0
     \<and> shadow_element_to_string color_name rgba_name e = ''inset -2 3 -3 @fg''"
proof -
  have t: "trunc_toward_zero (- (5 / 2)) = - 2" "trunc_toward_zero (7 / 2) = 3"
    "trunc_toward_zero (- 3) = - 3" "trunc_toward_zero 0 = 0"
    by code_simp+
  have p: "printf_d (- 2) = ''-2''" "printf_d 3 = ''3''" "printf_d (- 3) = ''-3''"
    by (simp_all add: printf_d_def decimal_digit digit_char_def)
  have f: "fits_gint16 (- (5 / 2))" "fits_gint16 (7 / 2)" "fits_gint16 (- 3)" "fits_gint16 0"
    by (simp_all add: fits_gint16_def t)
  from numeric_fields_stored_truncated[OF f, of True None "Some 7" empty_world color_name rgba_name]
  show ?thesis
    unfolding stores_truncated_def t by (auto simp: p color_name_def)
qed

text \<open>
  C4 as the claim states it fails on a fractional offset: 2.5 is stored as 2 and printed
  as 2.
\<close>

theorem numeric_pass_through_counterexample:
  "(case shadow_element_new (5 / 2) 0 0 0 False None (Some 7) empty_world of
      Inl f \<Rightarrow> False
    | Inr (e, w') \<Rightarrow>
        sint (hoffset e) = 2 \<and> gint16_to_gdouble (hoffset e) \<noteq> 5 / 2
        \<and> shadow_element_to_string color_name rgba_name e = ''2 0 @fg'')"
proof -
  have c: "gdouble_to_gint16 (5 / 2) = Inr 2" "gdouble_to_gint16 0 = Inr 0" by code_simp+
  have p: "printf_d 2 = ''2''" "printf_d 0 = ''0''" by code_simp+
  show ?thesis
    by (simp add: shadow_element_new_def Let_def c shadow_element_to_string_def p
        gint16_to_gdouble_def color_name_def)
qed

lemma out_of_range_conversion_undefined:
  "shadow_element_new 40000 0 0 0 False None (Some 7) w = Inl Undefined_conversion"
proof -
  have "gdouble_to_gint16 40000 = Inl Undefined_conversion" by code_simp
  then show ?thesis by (simp add: shadow_element_new_def Let_def)
qed

section \<open>The resolved flag over the reachable worlds\<close>

lemma store_inv_same:
  assumes "store_inv w" and "shadows w' = shadows w" and "next_addr w \<le> next_addr w'"
  shows "store_inv w'"
  using assms by (auto simp: store_inv_def allocator_ok_def)

lemma store_inv_update:
  assumes "store_inv w" and "shadows w p = Some sh" and "flag_ok sh'"
    and "shadows w' = (shadows w)(p \<mapsto> sh')" and "next_addr w' = next_addr w"
  shows "store_inv w'"
  using assms by (auto simp: store_inv_def allocator_ok_def)

lemma store_inv_delete:
  assumes "store_inv w" and "shadows w' = (shadows w)(p := None)"
    and "next_addr w' = next_addr w"
  shows "store_inv w'"
  using assms by (auto simp: store_inv_def allocator_ok_def)

lemma store_inv_allocate:
  assumes "store_inv w" and "flag_ok sh'"
    and "shadows w' = (shadows w)(next_addr w \<mapsto> sh')" and "next_addr w' = Suc (next_addr w)"
  shows "store_inv w'"
  using assms by (auto simp: store_inv_def allocator_ok_def)

lemma store_inv_flag: "store_inv w \<Longrightarrow> shadows w p = Some sh \<Longrightarrow> flag_ok sh"
  by (auto simp: store_inv_def)

lemma flag_ok_ref_count: "flag_ok (sh\<lparr>ref_count := n\<rparr>) = flag_ok sh"
  by (simp add: flag_ok_def)

lemma store_inv_start: "shadows w = Map.empty \<Longrightarrow> store_inv w"
  by (simp add: store_inv_def allocator_ok_def)

lemma store_inv_warning: "store_inv w \<Longrightarrow> store_inv (g_return_if_fail_warning w)"
  by (rule store_inv_same[of w]) (simp_all add: g_return_if_fail_warning_def)

lemma store_inv_new:
  assumes "store_inv w" and "gtk_shadow_new w = (p, w')"
  shows "store_inv w'"
proof -
  have a: "flag_ok \<lparr>elements = [], ref_count = 1, resolved = False\<rparr>"
    by (simp add: flag_ok_def)
  from assms(2) have w': "w' = snd (gtk_shadow_new w)" by simp
  have b: "shadows w' =
           (shadows w)(next_addr w \<mapsto> \<lparr>elements = [], ref_count = 1, resolved = False\<rparr>)"
    unfolding w' by (simp add: gtk_shadow_new_def Let_def)
  have c: "next_addr w' = Suc (next_addr w)"
    unfolding w' by (simp add: gtk_shadow_new_def Let_def)
  show ?thesis by (rule store_inv_allocate[OF assms(1) a b c])
qed

lemma gtk_shadow_ref_Inr:
  assumes "gtk_shadow_ref (Some p) w = Inr (r, w')"
  shows "\<exists>sh. shadows w p = Some sh
           \<and> shadows w' = (shadows w)(p \<mapsto> sh\<lparr>ref_count := ref_count sh + 1\<rparr>)
           \<and> next_addr w' = next_addr w"
proof (cases "shadows w p")
  case None
  then have "gtk_shadow_ref (Some p) w = Inl Invalid_pointer" by (simp add: gtk_shadow_ref_def)
  with assms show ?thesis by simp
next
  case (Some sh)
  from assms have w': "w' = snd (projr (gtk_shadow_ref (Some p) w))" by simp
  have run: "gtk_shadow_ref (Some p) w =
             Inr (Some p, w\<lparr>shadows := (shadows w)(p \<mapsto> sh\<lparr>ref_count := ref_count sh + 1\<rparr>)\<rparr>)"
    using Some by (simp add: gtk_shadow_ref_def)
  have "shadows w' = (shadows w)(p \<mapsto> sh\<lparr>ref_count := ref_count sh + 1\<rparr>)"
    and "next_addr w' = next_addr w"
    unfolding w' run by simp_all
  with Some show ?thesis by blast
qed

lemma store_inv_ref:
  assumes "store_inv w" and "gtk_shadow_ref shadow w = Inr (r, w')"
  shows "store_inv w'"
proof (cases shadow)
  case None
  from assms(2) have w': "w' = snd (projr (gtk_shadow_ref shadow w))" by simp
  have "w' = g_return_if_fail_warning w"
    unfolding w' None by (simp add: gtk_shadow_ref_def)
  with assms(1) show ?thesis by (simp add: store_inv_warning)
next
  case (Some p)
  from gtk_shadow_ref_Inr[OF assms(2)[unfolded Some]] obtain sh where sh: "shadows w p = Some sh"
    and b: "shadows w' = (shadows w)(p \<mapsto> sh\<lparr>ref_count := ref_count sh + 1\<rparr>)"
    and c: "next_addr w' = next_addr w"
    by blast
  have a: "flag_ok (sh\<lparr>ref_count := ref_count sh + 1\<rparr>)"
    using store_inv_flag[OF assms(1) sh] by (simp add: flag_ok_ref_count)
  show ?thesis by (rule store_inv_update[OF assms(1) sh a b c])
qed

lemma shadow_element_free_next_addr: "next_addr (shadow_element_free e v) = next_addr v"
  by (cases "symbolic_color e") (simp_all add: shadow_element_free_def gtk_symbolic_color_unref_def)

lemma g_list_free_full_next_addr: "next_addr (g_list_free_full l v) = next_addr v"
  by (induction l arbitrary: v) (simp_all add: shadow_element_free_next_addr)

lemma gtk_shadow_unref_Inr:
  assumes "gtk_shadow_unref (Some p) w = Inr w'"
  shows "\<exists>sh. shadows w p = Some sh \<and> next_addr w' = next_addr w
           \<and> (shadows w' = (shadows w)(p := None)
              \<or> shadows w' = (shadows w)(p \<mapsto> sh\<lparr>ref_count := ref_count sh - 1\<rparr>))"
proof (cases "shadows w p")
  case None
  then have "gtk_shadow_unref (Some p) w = Inl Invalid_pointer"
    by (simp add: gtk_shadow_unref_def)
  with assms show ?thesis by simp
next
  case (Some sh)
  let ?sh = "sh\<lparr>ref_count := ref_count sh - 1\<rparr>"
  let ?w1 = "w\<lparr>shadows := (shadows w)(p \<mapsto> ?sh)\<rparr>"
  from assms have w': "w' = projr (gtk_shadow_unref (Some p) w)" by simp
  show ?thesis
  proof (cases "ref_count sh - 1 = 0")
    case True
    have run: "gtk_shadow_unref (Some p) w =
      Inr ((g_list_free_full (elements sh) ?w1)
              \<lparr>shadows := (shadows (g_list_free_full (elements sh) ?w1))(p := None)\<rparr>)"
      using Some True by (simp add: gtk_shadow_unref_def Let_def)
    have "shadows w' = (shadows w)(p := None)" "next_addr w' = next_addr w"
      unfolding w' run
      by (simp_all add: g_list_free_full_shadows g_list_free_full_next_addr)
    with Some show ?thesis by blast
  next
    case False
    have run: "gtk_shadow_unref (Some p) w = Inr ?w1"
      using Some False by (simp add: gtk_shadow_unref_def Let_def)
    have "shadows w' = (shadows w)(p \<mapsto> ?sh)" "next_addr w' = next_addr w"
      unfolding w' run by simp_all
    with Some show ?thesis by blast
  qed
qed

lemma store_inv_unref:
  assumes "store_inv w" and "gtk_shadow_unref shadow w = Inr w'"
  shows "store_inv w'"
proof (cases shadow)
  case None
  from assms(2) have w': "w' = projr (gtk_shadow_unref shadow w)" by simp
  have "w' = g_return_if_fail_warning w"
    unfolding w' None by (simp add: gtk_shadow_unref_def)
  with assms(1) show ?thesis by (simp add: store_inv_warning)
next
  case (Some p)
  from gtk_shadow_unref_Inr[OF assms(2)[unfolded Some]] obtain sh where sh: "shadows w p = Some sh"
    and nxt: "next_addr w' = next_addr w"
    and alt: "shadows w' = (shadows w)(p := None)
              \<or> shadows w' = (shadows w)(p \<mapsto> sh\<lparr>ref_count := ref_count sh - 1\<rparr>)"
    by blast
  from alt show ?thesis
  proof
    assume del: "shadows w' = (shadows w)(p := None)"
    show ?thesis by (rule store_inv_delete[OF assms(1) del nxt])
  next
    assume upd: "shadows w' = (shadows w)(p \<mapsto> sh\<lparr>ref_count := ref_count sh - 1\<rparr>)"
    have a: "flag_ok (sh\<lparr>ref_count := ref_count sh - 1\<rparr>)"
      using store_inv_flag[OF assms(1) sh] by (simp add: flag_ok_ref_count)
    show ?thesis by (rule store_inv_update[OF assms(1) sh a upd nxt])
  qed
qed

lemma store_inv_append:
  assumes "store_inv w" and "gtk_shadow_get_resolved shadow w \<noteq> Inr True"
    and "gtk_shadow_append shadow h v r s ins col w = Inr w'"
  shows "store_inv w'"
proof (cases "shadow = None \<or> col = None")
  case True
  from assms(3) have w': "w' = projr (gtk_shadow_append shadow h v r s ins col w)" by simp
  from True have "gtk_shadow_append shadow h v r s ins col w = Inr (g_return_if_fail_warning w)"
    by (cases shadow; cases col) (simp_all add: gtk_shadow_append_def)
  then have "w' = g_return_if_fail_warning w" unfolding w' by simp
  with assms(1) show ?thesis by (simp add: store_inv_warning)
next
  case False
  then obtain p sc where ps: "shadow = Some p" "col = Some sc" by auto
  from gtk_shadow_append_Inr[OF assms(3)[unfolded ps]]
  obtain sh e where sh: "shadows w p = Some sh" and e: "symbolic_color e = Some sc"
    and b: "shadows w' = (shadows w)(p \<mapsto> sh\<lparr>elements := elements sh @ [e]\<rparr>)"
    and c: "next_addr w' = next_addr w"
    by blast
  from assms(2) ps sh have "\<not> resolved sh" by (simp add: gtk_shadow_get_resolved_def)
  with store_inv_flag[OF assms(1) sh] e have a: "flag_ok (sh\<lparr>elements := elements sh @ [e]\<rparr>)"
    by (simp add: flag_ok_def is_symbolic_def)
  show ?thesis by (rule store_inv_update[OF assms(1) sh a b c])
qed

lemma flag_ok_resolved_copies:
  "flag_ok \<lparr>elements = map (resolved_copy R props) l, ref_count = n, resolved = True\<rparr>"
  by (simp add: flag_ok_def list_all_iff is_concrete_def resolved_copy_def concrete_copy_def)

lemma store_inv_resolve:
  assumes "store_inv w" and "gtk_shadow_resolve R shadow props w = Inr (r, w')"
  shows "store_inv w'"
proof -
  have "shadow \<noteq> None"
  proof
    assume "shadow = None"
    then have "gtk_shadow_resolve R shadow props w = Inl Null_dereference"
      by (simp add: gtk_shadow_resolve_def)
    with assms(2) show False by simp
  qed
  then obtain p where p: "shadow = Some p" by blast
  have "shadows w p \<noteq> None"
  proof
    assume "shadows w p = None"
    then have "gtk_shadow_resolve R shadow props w = Inl Invalid_pointer"
      using p by (simp add: gtk_shadow_resolve_def)
    with assms(2) show False by simp
  qed
  then obtain sh where sh: "shadows w p = Some sh" by blast
  from assms(2) have w': "w' = snd (projr (gtk_shadow_resolve R (Some p) props w))"
    unfolding p by simp
  from assms(1) have fresh: "shadows w (next_addr w) = None"
    by (simp add: store_inv_def allocator_ok_fresh)
  show ?thesis
  proof (cases "resolved sh")
    case True
    have "gtk_shadow_resolve R shadow props w = gtk_shadow_ref shadow w"
      using p sh True by (simp add: gtk_shadow_resolve_def)
    with assms(2) have "gtk_shadow_ref shadow w = Inr (r, w')" by simp
    with assms(1) show ?thesis by (rule store_inv_ref)
  next
    case False
    show ?thesis
    proof (cases "\<forall>e\<in>set (elements sh). R (symbolic_color e) props \<noteq> None")
      case True
      have b: "shadows w' = (shadows w)(next_addr w \<mapsto>
                     \<lparr>elements = map (resolved_copy R props) (elements sh), ref_count = 1,
                      resolved = True\<rparr>)"
        and c: "next_addr w' = Suc (next_addr w)"
        unfolding w'
          gtk_shadow_resolve_success[where R = R and props = props, OF sh False fresh True]
        by simp_all
      show ?thesis by (rule store_inv_allocate[OF assms(1) flag_ok_resolved_copies b c])
    next
      case all: False
      then have "\<exists>e\<in>set (elements sh). R (symbolic_color e) props = None" by simp
      then obtain pre e post where split: "elements sh = pre @ e # post"
        and e: "R (symbolic_color e) props = None"
        and pre: "\<forall>x\<in>set pre. R (symbolic_color x) props \<noteq> None"
        by (auto dest!: split_list_first_prop)
      have b: "shadows w' = shadows w" and c: "next_addr w \<le> next_addr w'"
        unfolding w'
          gtk_shadow_resolve_failure[where R = R and props = props,
            OF sh False fresh split pre e]
        by simp_all
      show ?thesis by (rule store_inv_same[OF assms(1) b c])
    qed
  qed
qed

lemma store_inv_paint:
  assumes "store_inv w" and "gtk_text_shadow_paint_layout shadow cr layout w = Inr (cr', w')"
  shows "store_inv w'"
proof -
  from assms(2) have w': "w' = snd (projr (gtk_text_shadow_paint_layout shadow cr layout w))"
    by simp
  have "shadow \<noteq> None"
  proof
    assume "shadow = None"
    then have "gtk_text_shadow_paint_layout shadow cr layout w = Inl Null_dereference"
      by (simp add: gtk_text_shadow_paint_layout_def Let_def)
    with assms(2) show False by simp
  qed
  then obtain p where p: "shadow = Some p" by blast
  have "shadows w p \<noteq> None"
  proof
    assume "shadows w p = None"
    then have "gtk_text_shadow_paint_layout shadow cr layout w = Inl Invalid_pointer"
      using p by (simp add: gtk_text_shadow_paint_layout_def Let_def)
    with assms(2) show False by simp
  qed
  then obtain sh where sh: "shadows w p = Some sh" by blast
  have "w' = w"
    unfolding w' p using sh by (simp add: gtk_text_shadow_paint_layout_def Let_def)
  with assms(1) show ?thesis by simp
qed

lemma reachable_store_inv: "reachable w \<Longrightarrow> store_inv w"
proof (induction rule: reachable.induct)
  case (start w)
  then show ?case by (rule store_inv_start)
next
  case (new w p w')
  from new.IH new.hyps(2) show ?case by (rule store_inv_new)
next
  case (ref w shadow r w')
  from ref.IH ref.hyps(2) show ?case by (rule store_inv_ref)
next
  case (unref w shadow w')
  from unref.IH unref.hyps(2) show ?case by (rule store_inv_unref)
next
  case (append w shadow h v r s ins col w')
  from append.IH append.hyps(2,3) show ?case by (rule store_inv_append)
next
  case (resolve w R shadow props r w')
  from resolve.IH resolve.hyps(2) show ?case by (rule store_inv_resolve)
next
  case (to_string w sym_text rgba_text shadow t)
  then show ?case by simp
next
  case (paint w shadow cr layout cr' w')
  from paint.IH paint.hyps(2) show ?case by (rule store_inv_paint)
qed

lemma gtk_shadow_append_in_range:
  assumes "fits_gint16 h" and "fits_gint16 v" and "fits_gint16 r" and "fits_gint16 s"
    and "shadows w p = Some sh"
  shows "\<exists>e w'. gtk_shadow_append (Some p) h v r s ins (Some sc) w = Inr w'
           \<and> shadows w' p = Some (sh\<lparr>elements := elements sh @ [e]\<rparr>)
           \<and> stores_truncated h v r s e
           \<and> symbolic_color e = Some sc"
proof -
  from shadow_element_new_in_range[OF assms(1-4), of ins None "Some sc" w]
  obtain e where e: "shadow_element_new h v r s ins None (Some sc) w =
             Inr (e, gtk_symbolic_color_ref sc (w\<lparr>live_elements := live_elements w + 1\<rparr>))"
    "stores_truncated h v r s e" "symbolic_color e = Some sc"
    by auto
  let ?w' = "(gtk_symbolic_color_ref sc (w\<lparr>live_elements := live_elements w + 1\<rparr>))
               \<lparr>shadows := (shadows w)(p \<mapsto> sh\<lparr>elements := elements sh @ [e]\<rparr>)\<rparr>"
  from assms(5) e(1) have "gtk_shadow_append (Some p) h v r s ins (Some sc) w = Inr ?w'"
    by (simp add: gtk_shadow_append_def gtk_symbolic_color_ref_def)
  moreover have "shadows ?w' p = Some (sh\<lparr>elements := elements sh @ [e]\<rparr>)" by simp
  ultimately show ?thesis using e(2,3) by blast
qed

text \<open>
  The code of append does not look at the resolved flag: on a resolved list it adds a
  symbolic element all the same and leaves the flag set.  This is why the restriction of
  append to lists that are not resolved is a premise of the reachability relation.
\<close>

lemma append_to_resolved_list_unchecked:
  assumes "fits_gint16 h" and "fits_gint16 v" and "fits_gint16 r" and "fits_gint16 s"
    and "shadows w p = Some sh" and "resolved sh"
  shows "\<exists>e w' sh'. gtk_shadow_append (Some p) h v r s ins (Some sc) w = Inr w'
           \<and> shadows w' p = Some sh' \<and> resolved sh' \<and> e \<in> set (elements sh')
           \<and> symbolic_color e = Some sc"
proof -
  from gtk_shadow_append_in_range[OF assms(1-5), of ins sc]
  obtain e w' where "gtk_shadow_append (Some p) h v r s ins (Some sc) w = Inr w'"
    and "shadows w' p = Some (sh\<lparr>elements := elements sh @ [e]\<rparr>)"
    and "symbolic_color e = Some sc"
    by blast
  moreover have "resolved (sh\<lparr>elements := elements sh @ [e]\<rparr>)" using assms(6) by simp
  moreover have "e \<in> set (elements (sh\<lparr>elements := elements sh @ [e]\<rparr>))" by simp
  ultimately show ?thesis by blast
qed

text \<open>
  C5, as amended.  In every world that the public operations reach from an empty store,
  with append applied to lists that are not resolved only, every element of a resolved list
  is concrete and every element of a list that is not resolved is symbolic.  So no resolved
  list holds a symbolic element.  The flag of an empty new list is false, so that all
  elements being concrete does not make the flag true.
\<close>

theorem resolved_flag_invariant:
  assumes "reachable w" and "shadows w p = Some sh"
  shows "(resolved sh \<longrightarrow> (\<forall>e\<in>set (elements sh). symbolic_color e = None))
       \<and> (\<not> resolved sh \<longrightarrow> (\<forall>e\<in>set (elements sh). symbolic_color e \<noteq> None))"
proof -
  from assms(1) have "store_inv w" by (rule reachable_store_inv)
  then have "flag_ok sh" using assms(2) by (rule store_inv_flag)
  then show ?thesis
    by (simp add: flag_ok_def list_all_iff is_concrete_def is_symbolic_def split: if_splits)
qed

lemma reachable_new_empty_world: "reachable (snd (gtk_shadow_new empty_world))"
proof -
  have "reachable empty_world" by (rule reachable.start) (simp add: empty_world_def)
  moreover have "gtk_shadow_new empty_world = (fst (gtk_shadow_new empty_world),
                                               snd (gtk_shadow_new empty_world))"
    by simp
  ultimately show ?thesis by (rule reachable.new)
qed

lemma shadows_new_empty_world:
  "shadows (snd (gtk_shadow_new empty_world)) 1 =
     Some \<lparr>elements = [], ref_count = 1, resolved = False\<rparr>"
  by (simp add: gtk_shadow_new_def Let_def empty_world_def)

theorem resolved_flag_invariant_witness:
  "\<exists>w e. reachable w
     \<and> shadows w 1 = Some \<lparr>elements = [e], ref_count = 1, resolved = False\<rparr>
     \<and> symbolic_color e \<noteq> None"
proof -
  let ?w1 = "snd (gtk_shadow_new empty_world)"
  let ?new = "\<lparr>elements = [], ref_count = 1, resolved = False\<rparr>"
  have t: "trunc_toward_zero 2 = 2" "trunc_toward_zero 0 = 0" by code_simp+
  have f: "fits_gint16 2" "fits_gint16 0" by (simp_all add: fits_gint16_def t)
  from gtk_shadow_append_in_range[OF f(1) f(1) f(2) f(2) shadows_new_empty_world, of False 7]
  obtain e w2 where app: "gtk_shadow_append (Some 1) 2 2 0 0 False (Some 7) ?w1 = Inr w2"
    and sh2: "shadows w2 1 = Some (?new\<lparr>elements := elements ?new @ [e]\<rparr>)"
    by blast
  have "gtk_shadow_get_resolved (Some 1) ?w1 \<noteq> Inr True"
    using shadows_new_empty_world by (simp add: gtk_shadow_get_resolved_def)
  with reachable_new_empty_world have r2: "reachable w2" using app by (rule reachable.append)
  from sh2 have sh2': "shadows w2 1 = Some \<lparr>elements = [e], ref_count = 1, resolved = False\<rparr>"
    by simp
  from resolved_flag_invariant[OF r2 sh2'] have "symbolic_color e \<noteq> None" by simp
  with r2 sh2' show ?thesis by blast
qed

text \<open>
  C5 as the claim states it fails on a new list: it is reachable, all its elements are
  concrete, for it has none, and its resolved flag is false.
\<close>

theorem resolved_flag_iff_counterexample:
  "reachable (snd (gtk_shadow_new empty_world))
   \<and> shadows (snd (gtk_shadow_new empty_world)) 1 =
       Some \<lparr>elements = [], ref_count = 1, resolved = False\<rparr>
   \<and> \<not> (resolved \<lparr>elements = [], ref_count = 1, resolved = False\<rparr>
          = list_all is_concrete (elements \<lparr>elements = [], ref_count = 1, resolved = False\<rparr>))"
  using reachable_new_empty_world shadows_new_empty_world by simp

end
